theory Spec2Isabelle
  imports Complex_Main
begin

section \<open>Python Decimal values and Django decimal columns\<close>

text \<open>
  A \<^verbatim>\<open>decimal.Decimal\<close> is modelled by the rational number it denotes. Every arithmetic
  operation of the default context computes the exact result and rounds it to 28
  significant digits, ties to even (\<^verbatim>\<open>prec=28, rounding=ROUND_HALF_EVEN\<close>); the
  exponent limits of the context are far from every magnitude that occurs here and are not
  modelled.
\<close>

definition round_half_even :: "rat \<Rightarrow> int" where
  "round_half_even x =
     (let f = \<lfloor>x\<rfloor>; r = x - of_int f
      in if r < 1 / 2 then f else if 1 / 2 < r then f + 1 else if even f then f else f + 1)"

definition pow10 :: "int \<Rightarrow> rat" where
  "pow10 e = (if 0 \<le> e then 10 ^ nat e else 1 / 10 ^ nat (- e))"

function digits :: "int \<Rightarrow> nat" where
  "digits n = (if n < 10 then 1 else Suc (digits (n div 10)))"
  by pat_completeness auto
termination
  by (relation "measure nat") auto

declare digits.simps [simp del]

text \<open>The exponent of the leading digit of a non-zero value (\<^verbatim>\<open>Decimal.adjusted()\<close>).\<close>

definition adjusted :: "rat \<Rightarrow> int" where
  "adjusted x =
     (let n = fst (quotient_of \<bar>x\<bar>); d = snd (quotient_of \<bar>x\<bar>);
          e0 = int (digits n) - int (digits d)
      in if pow10 e0 \<le> \<bar>x\<bar> then e0 else e0 - 1)"

definition ctx_round :: "rat \<Rightarrow> rat" where
  "ctx_round x =
     (if x = 0 then 0
      else (let q = pow10 (adjusted x - 27) in of_int (round_half_even (x / q)) * q))"

definition dec_add :: "rat \<Rightarrow> rat \<Rightarrow> rat" where
  "dec_add x y = ctx_round (x + y)"

definition dec_sub :: "rat \<Rightarrow> rat \<Rightarrow> rat" where
  "dec_sub x y = ctx_round (x - y)"

definition dec_mul :: "rat \<Rightarrow> rat \<Rightarrow> rat" where
  "dec_mul x y = ctx_round (x * y)"

definition dec_div :: "rat \<Rightarrow> rat \<Rightarrow> rat" where
  "dec_div x y = ctx_round (x / y)"

definition dec_neg :: "rat \<Rightarrow> rat" where
  "dec_neg x = ctx_round (- x)"

definition dec_abs :: "rat \<Rightarrow> rat" where
  "dec_abs x = ctx_round \<bar>x\<bar>"

text \<open>
  \<^verbatim>\<open>round(x, 2)\<close> on a Decimal, and the value a \<^verbatim>\<open>DecimalField(decimal_places=2)\<close>
  stores: the nearest multiple of 0.01, ties to even.
\<close>

definition quantize2 :: "rat \<Rightarrow> rat" where
  "quantize2 x = of_int (round_half_even (x * 100)) / 100"

datatype py_error =
    DoesNotExist
  | MultipleObjectsReturned
  | InvalidOperation
  | DatabaseError
  | RuntimeError
  | ZeroDivisionError
  | OtherError

text \<open>
  Writing a Decimal into a \<^verbatim>\<open>DecimalField(max_digits=15, decimal_places=2)\<close> column:
  the value is quantized to two places in a context of 15 digits, which raises
  \<^verbatim>\<open>InvalidOperation\<close> when the result needs more than 15 digits.
\<close>

definition to_db :: "rat \<Rightarrow> py_error + rat" where
  "to_db x = (let q = quantize2 x in if \<bar>q\<bar> < 10 ^ 13 then Inr q else Inl InvalidOperation)"

definition bind_result :: "'e + 'a \<Rightarrow> ('a \<Rightarrow> 'e + 'b) \<Rightarrow> 'e + 'b" where
  "bind_result m f = (case m of Inl e \<Rightarrow> Inl e | Inr x \<Rightarrow> f x)"

text \<open>A stored money amount: a multiple of 0.01 of at most 15 digits.\<close>

definition is_money :: "rat \<Rightarrow> bool" where
  "is_money x \<longleftrightarrow> of_int (round_half_even (x * 100)) = x * 100 \<and> \<bar>x\<bar> < 10 ^ 13"

section \<open>Ledger entities (investments/models.py)\<close>

datatype inv_status = ACTIVE | UNDERPERFORMING | EXITED

datatype activity_type = INITIAL_INVESTMENT | CAPITAL_CALL | DISTRIBUTION | PARTIAL_EXIT

datatype transfer_type = FULL | PARTIAL

datatype transfer_status = DRAFT | PENDING | APPROVED | COMPLETED | CANCELLED | REJECTED

record user =
  uid :: nat
  email :: string
  is_staff :: bool

text \<open>
  Fields that none of the modelled operations reads or writes (fund size, unfunded
  commitment, horizon, progress, timestamps) are left out of the rows.
\<close>

record investment =
  inv_id :: nat
  inv_user :: nat
  inv_name :: string
  inv_status :: inv_status
  sector :: string
  total_invested :: rat
  current_value :: rat
  manager :: string
  investment_date :: int
  fund_vintage :: "int option"

record capital_activity =
  ca_investment :: nat
  ca_type :: activity_type
  amount :: rat
  ca_date :: int
  details :: string

record performance_snapshot =
  ps_investment :: nat
  ps_date :: int
  ps_value :: rat

record ownership_transfer =
  tr_id :: nat
  tr_investment :: nat
  from_user :: user
  to_user :: "user option"
  transfer_type :: transfer_type
  transfer_amount :: rat
  transfer_fee :: rat
  net_amount :: rat
  tr_status :: transfer_status
  is_processed :: bool
  completion_date :: "int option"
  estimated_completion_date :: "int option"
  investment_obj :: "investment option"

text \<open>
  \<open>tr_investment\<close> is the column \<^verbatim>\<open>investment_id\<close>. \<open>investment_obj\<close> is not a column: it
  is the related \<^verbatim>\<open>Investment\<close> object that a transfer instance caches
  (\<^verbatim>\<open>instance.investment\<close>), \<open>None\<close> while it is not loaded. The rows of the table carry
  \<open>None\<close> there.
\<close>

text \<open>
  A \<^verbatim>\<open>UserActivity\<close> row written by \<^verbatim>\<open>UserActivity.log_activity\<close>; the description
  text interpolates the transfer amount, kept here as the amount itself.
\<close>

record user_activity =
  ua_user :: nat
  ua_type :: string
  ua_amount :: rat
  ua_transfer :: nat
  ua_role :: string

record db =
  investments :: "investment list"
  capital_activities :: "capital_activity list"
  performance_snapshots :: "performance_snapshot list"
  transfers :: "ownership_transfer list"
  user_activities :: "user_activity list"

text \<open>\<^verbatim>\<open>timezone.now()\<close> is a parameter, in seconds; \<^verbatim>\<open>.date()\<close> is its day number.\<close>

definition date_of :: "int \<Rightarrow> int" where
  "date_of now = now div 86400"

fun str_nat :: "nat \<Rightarrow> string" where
  "str_nat n =
     (if n < 10 then [char_of (48 + n)] else str_nat (n div 10) @ [char_of (48 + n mod 10)])"

declare str_nat.simps [simp del]

definition get_investment :: "nat \<Rightarrow> db \<Rightarrow> investment option" where
  "get_investment i d = find (\<lambda>r. inv_id r = i) (investments d)"

definition get_transfer :: "nat \<Rightarrow> db \<Rightarrow> ownership_transfer option" where
  "get_transfer i d = find (\<lambda>r. tr_id r = i) (transfers d)"

definition fresh_id :: "nat list \<Rightarrow> nat" where
  "fresh_id ids = Suc (fold max ids 0)"

text \<open>\<^verbatim>\<open>Model.save()\<close> with a primary key: update the row, insert it when there is none.\<close>

definition put_investment :: "investment \<Rightarrow> investment list \<Rightarrow> investment list" where
  "put_investment row rows =
     (if \<exists>r \<in> set rows. inv_id r = inv_id row
      then map (\<lambda>r. if inv_id r = inv_id row then row else r) rows
      else rows @ [row])"

text \<open>
  Reading \<^verbatim>\<open>instance.investment\<close>: the cached object when there is one, otherwise the
  row the foreign key names, fetched from the table (\<^verbatim>\<open>DoesNotExist\<close> when it is
  missing) and cached from then on.
\<close>

definition related_investment :: "ownership_transfer \<Rightarrow> db \<Rightarrow> py_error + investment" where
  "related_investment instance d =
     (case investment_obj instance of
        Some seller_investment \<Rightarrow> Inr seller_investment
      | None \<Rightarrow>
          (case get_investment (tr_investment instance) d of
             None \<Rightarrow> Inl DoesNotExist
           | Some row \<Rightarrow> Inr row))"

text \<open>
  An exception inside a \<^verbatim>\<open>try\<close> block keeps what the block has done to the objects in
  memory: \<open>in_memory x m\<close> attaches to an exception of \<open>m\<close> the instance \<open>x\<close> as it is at
  that point.
\<close>

definition in_memory :: "'s \<Rightarrow> py_error + 'a \<Rightarrow> (py_error \<times> 's) + 'a" where
  "in_memory x m = (case m of Inl e \<Rightarrow> Inl (e, x) | Inr y \<Rightarrow> Inr y)"

section \<open>Signals (investments/signals.py)\<close>

definition create_performance_snapshot :: "int \<Rightarrow> investment \<Rightarrow> db \<Rightarrow> py_error + db" where
  "create_performance_snapshot today instance d =
     (if current_value instance \<noteq> 0 \<and> current_value instance > 0
      then (let existing = (\<exists>s \<in> set (performance_snapshots d).
                              ps_investment s = inv_id instance \<and> ps_date s = today)
            in if \<not> existing
               then bind_result (to_db (current_value instance)) (\<lambda>v.
                      Inr (d\<lparr>performance_snapshots := performance_snapshots d @
                             [\<lparr>ps_investment = inv_id instance, ps_date = today, ps_value = v\<rparr>]\<rparr>))
               else Inr d)
      else Inr d)"

text \<open>
  \<^verbatim>\<open>Investment.save()\<close>: the two money columns are written quantized, then the
  \<^verbatim>\<open>post_save\<close> receiver \<^verbatim>\<open>create_performance_snapshot\<close> runs on the instance.
\<close>

definition Investment_save :: "int \<Rightarrow> investment \<Rightarrow> db \<Rightarrow> py_error + db" where
  "Investment_save today instance d =
     bind_result (to_db (total_invested instance)) (\<lambda>ti.
     bind_result (to_db (current_value instance)) (\<lambda>cv.
       create_performance_snapshot today instance
         (d\<lparr>investments :=
              put_investment (instance\<lparr>total_invested := ti, current_value := cv\<rparr>)
                (investments d)\<rparr>)))"

text \<open>The row that \<^verbatim>\<open>Investment.save()\<close> leaves in the table for an instance.\<close>

definition stored :: "investment \<Rightarrow> investment" where
  "stored instance =
     instance\<lparr>total_invested := quantize2 (total_invested instance),
              current_value := quantize2 (current_value instance)\<rparr>"

definition CapitalActivity_create :: "capital_activity \<Rightarrow> db \<Rightarrow> py_error + db" where
  "CapitalActivity_create a d =
     bind_result (to_db (amount a)) (\<lambda>v.
       Inr (d\<lparr>capital_activities := capital_activities d @ [a\<lparr>amount := v\<rparr>]\<rparr>))"

text \<open>
  \<^verbatim>\<open>Investment.objects.get_or_create(user=..., name=..., defaults=...)\<close>: the single
  matching row, a new row when there is none, \<^verbatim>\<open>MultipleObjectsReturned\<close> when there
  are several (the table has no uniqueness constraint on user and name).
\<close>

definition new_investment ::
  "int \<Rightarrow> nat \<Rightarrow> string \<Rightarrow> investment \<Rightarrow> investment list \<Rightarrow> investment" where
  "new_investment today buyer_id nm seller_investment rows =
     \<lparr>inv_id = fresh_id (map inv_id rows),
      inv_user = buyer_id,
      inv_name = nm,
      inv_status = ACTIVE,
      sector = sector seller_investment,
      total_invested = 0,
      current_value = 0,
      manager = manager seller_investment,
      investment_date = today,
      fund_vintage = fund_vintage seller_investment\<rparr>"

definition get_or_create ::
  "int \<Rightarrow> nat \<Rightarrow> string \<Rightarrow> investment \<Rightarrow> db \<Rightarrow> py_error + (investment \<times> db)" where
  "get_or_create today buyer_id nm seller_investment d =
     (case filter (\<lambda>r. inv_user r = buyer_id \<and> inv_name r = nm) (investments d) of
        [] \<Rightarrow>
          (let new = new_investment today buyer_id nm seller_investment (investments d)
           in bind_result (Investment_save today new d) (\<lambda>d'. Inr (new, d')))
      | [r] \<Rightarrow> Inr (r, d)
      | _ \<Rightarrow> Inl MultipleObjectsReturned)"

text \<open>
  The part of \<^verbatim>\<open>OwnershipTransfer.save\<close> that runs before the row is written
  (models.py, lines 344 to 351).
\<close>

definition pre_save :: "int \<Rightarrow> ownership_transfer \<Rightarrow> ownership_transfer" where
  "pre_save now self =
     (let fee = dec_mul (transfer_amount self) (25 / 1000);
          s1 = self\<lparr>transfer_fee := fee, net_amount := dec_sub (transfer_amount self) fee\<rparr>
      in if estimated_completion_date s1 = None \<and> tr_status s1 = PENDING
         then s1\<lparr>estimated_completion_date := Some (now + 10 * 86400)\<rparr>
         else s1)"

text \<open>
  \<^verbatim>\<open>instance.save(update_fields=['is_processed', 'completion_date'])\<close>: the override
  recomputes fee and net amount on the instance, only the two named columns of the row
  are written, and a missing row is a \<^verbatim>\<open>DatabaseError\<close>. The \<^verbatim>\<open>post_save\<close> signal this
  save sends re-enters \<^verbatim>\<open>handle_transfer_completion\<close> with \<^verbatim>\<open>is_processed\<close> already
  set, so the nested call returns at its first check; that return is inlined here.
\<close>

definition save_update_fields ::
  "int \<Rightarrow> ownership_transfer \<Rightarrow> db \<Rightarrow> py_error + (ownership_transfer \<times> db)" where
  "save_update_fields now self d =
     (let s1 = pre_save now self
      in if \<exists>r \<in> set (transfers d). tr_id r = tr_id s1
         then Inr (s1, d\<lparr>transfers :=
                map (\<lambda>r. if tr_id r = tr_id s1
                          then r\<lparr>is_processed := is_processed s1,
                                 completion_date := completion_date s1\<rparr>
                          else r) (transfers d)\<rparr>)
         else Inl DatabaseError)"

definition log_activity :: "user \<Rightarrow> string \<Rightarrow> rat \<Rightarrow> nat \<Rightarrow> string \<Rightarrow> db \<Rightarrow> db" where
  "log_activity u ty amt tid role d =
     d\<lparr>user_activities := user_activities d @
         [\<lparr>ua_user = uid u, ua_type = ty, ua_amount = amt, ua_transfer = tid, ua_role = role\<rparr>]\<rparr>"

text \<open>
  The seller side of the settlement (signals.py, lines 75 to 89): proportional cost
  basis, the subtraction, and the full-exit rule.
\<close>

definition seller_update :: "ownership_transfer \<Rightarrow> investment \<Rightarrow> investment" where
  "seller_update instance seller_investment =
     (let transfer_ratio =
            (if current_value seller_investment > 0
             then dec_div (transfer_amount instance) (current_value seller_investment)
             else 0);
          cost_basis_deduction = dec_mul (total_invested seller_investment) transfer_ratio;
          s1 = seller_investment
                 \<lparr>current_value :=
                    dec_sub (current_value seller_investment) (transfer_amount instance),
                  total_invested :=
                    dec_sub (total_invested seller_investment) cost_basis_deduction\<rparr>
      in if transfer_type instance = FULL \<or> current_value s1 < 1 / 100
         then s1\<lparr>inv_status := EXITED, current_value := 0, total_invested := 0\<rparr>
         else s1)"

text \<open>The buyer side (lines 118 and 119).\<close>

definition buyer_update :: "ownership_transfer \<Rightarrow> investment \<Rightarrow> investment" where
  "buyer_update instance buyer_investment =
     buyer_investment
       \<lparr>total_invested :=
          dec_add (total_invested buyer_investment) (transfer_amount instance),
        current_value :=
          dec_add (current_value buyer_investment) (transfer_amount instance)\<rparr>"

definition seller_activity :: "int \<Rightarrow> ownership_transfer \<Rightarrow> user \<Rightarrow> investment \<Rightarrow> capital_activity" where
  "seller_activity today instance buyer seller_investment =
     \<lparr>ca_investment = inv_id seller_investment,
      ca_type = (if transfer_type instance = PARTIAL then PARTIAL_EXIT else DISTRIBUTION),
      amount = transfer_amount instance,
      ca_date = today,
      details = ''Ownership transfer to '' @ email buyer @ '' (Transfer #''
                  @ str_nat (tr_id instance) @ '')''\<rparr>"

definition buyer_activity :: "int \<Rightarrow> ownership_transfer \<Rightarrow> investment \<Rightarrow> capital_activity" where
  "buyer_activity today instance buyer_investment =
     \<lparr>ca_investment = inv_id buyer_investment,
      ca_type = INITIAL_INVESTMENT,
      amount = dec_neg (transfer_amount instance),
      ca_date = today,
      details = ''Ownership transfer from '' @ email (from_user instance)
                  @ '' (Transfer #'' @ str_nat (tr_id instance) @ '')''\<rparr>"

text \<open>
  The body of \<^verbatim>\<open>with transaction.atomic():\<close> in \<^verbatim>\<open>handle_transfer_completion\<close>
  (signals.py, lines 73 to 156). The seller's investment is the object cached on the
  instance, and lines 82 to 89 change it in memory before anything is saved. An exception
  anywhere in the block is the value \<open>Inl\<close>; no database state comes with it, since the
  transaction rolls back, but the instance does, as the block left it in memory: with the
  changed seller object up to line 131, and with \<^verbatim>\<open>is_processed\<close>, the completion date
  and the recomputed fee and net amount as well when the exception comes from the save of
  line 135.
\<close>

definition settle ::
  "int \<Rightarrow> ownership_transfer \<Rightarrow> user \<Rightarrow> investment \<Rightarrow> db
     \<Rightarrow> (py_error \<times> ownership_transfer) + (ownership_transfer \<times> db)" where
  "settle now instance buyer seller_investment d =
     (let today = date_of now;
          s2 = seller_update instance seller_investment;
          i0 = instance\<lparr>investment_obj := Some s2\<rparr>
      in bind_result (in_memory i0 (Investment_save today s2 d)) (\<lambda>d1.
         bind_result (in_memory i0
                        (CapitalActivity_create (seller_activity today instance buyer s2) d1)) (\<lambda>d2.
         bind_result (in_memory i0 (get_or_create today (uid buyer) (inv_name s2) s2 d2))
           (\<lambda>(buyer_investment, d3).
         let b1 = buyer_update instance buyer_investment
         in bind_result (in_memory i0 (Investment_save today b1 d3)) (\<lambda>d4.
         bind_result (in_memory i0
                        (CapitalActivity_create (buyer_activity today instance b1) d4)) (\<lambda>d5.
         let i1 = i0\<lparr>is_processed := True,
                    completion_date :=
                      (case completion_date instance of None \<Rightarrow> Some now | Some c \<Rightarrow> Some c)\<rparr>
         in bind_result (in_memory (pre_save now i1) (save_update_fields now i1 d5)) (\<lambda>(i2, d6).
         Inr (i2,
              log_activity buyer ''PORTFOLIO_UPDATE'' (transfer_amount i2) (tr_id i2) ''buyer''
                (log_activity (from_user i2) ''PORTFOLIO_UPDATE'' (transfer_amount i2)
                   (tr_id i2) ''seller'' d6)))))))))"

text \<open>
  \<^verbatim>\<open>handle_transfer_completion\<close>, the \<^verbatim>\<open>post_save\<close> receiver of a transfer. The result
  is the instance and the database after the call; \<open>Inl\<close> is an exception that reaches
  the caller. The read of \<^verbatim>\<open>instance.investment\<close> (line 60) is outside the \<^verbatim>\<open>try\<close>.
  The \<^verbatim>\<open>except Exception\<close> branch logs and returns: the database is the one before the
  call, the instance is the one the failed block left in memory.
\<close>

definition handle_transfer_completion ::
  "int \<Rightarrow> ownership_transfer \<Rightarrow> db \<Rightarrow> py_error + (ownership_transfer \<times> db)" where
  "handle_transfer_completion now instance d =
     (if tr_status instance \<noteq> COMPLETED \<or> is_processed instance then Inr (instance, d)
      else (case to_user instance of
              None \<Rightarrow> Inr (instance, d)
            | Some buyer \<Rightarrow>
                (case related_investment instance d of
                   Inl e \<Rightarrow> Inl e
                 | Inr seller_investment \<Rightarrow>
                     (let loaded = instance\<lparr>investment_obj := Some seller_investment\<rparr>
                      in if current_value seller_investment < transfer_amount instance
                         then Inr (loaded, d)
                         else (case settle now loaded buyer seller_investment d of
                                 Inl (e, failed) \<Rightarrow> Inr (failed, d)
                               | Inr r \<Rightarrow> Inr r)))))"

text \<open>Running the receiver \<open>n\<close> times in sequence on the same transfer.\<close>

fun run_handler :: "nat \<Rightarrow> int \<Rightarrow> ownership_transfer \<Rightarrow> db
    \<Rightarrow> py_error + (ownership_transfer \<times> db)" where
  "run_handler 0 now instance d = Inr (instance, d)"
| "run_handler (Suc n) now instance d =
     bind_result (handle_transfer_completion now instance d)
       (\<lambda>(i', d'). run_handler n now i' d')"

section \<open>Saving a transfer and the complete action (models.py, views.py)\<close>

definition put_transfer :: "ownership_transfer \<Rightarrow> ownership_transfer list \<Rightarrow> ownership_transfer list" where
  "put_transfer row rows =
     (if \<exists>r \<in> set rows. tr_id r = tr_id row
      then map (\<lambda>r. if tr_id r = tr_id row then row else r) rows
      else rows @ [row])"

text \<open>
  \<^verbatim>\<open>OwnershipTransfer.save()\<close>: fee and net amount are recomputed on the instance, the
  row is written with its three money columns quantized, and the \<^verbatim>\<open>post_save\<close> signal
  runs \<^verbatim>\<open>handle_transfer_completion\<close> on the instance. The nullable
  \<^verbatim>\<open>percentage\<close> column is not part of the rows, and neither is the cached related
  object.
\<close>

definition OwnershipTransfer_save ::
  "int \<Rightarrow> ownership_transfer \<Rightarrow> db \<Rightarrow> py_error + (ownership_transfer \<times> db)" where
  "OwnershipTransfer_save now self d =
     (let s1 = pre_save now self
      in bind_result (to_db (transfer_amount s1)) (\<lambda>a.
         bind_result (to_db (transfer_fee s1)) (\<lambda>f.
         bind_result (to_db (net_amount s1)) (\<lambda>n.
           handle_transfer_completion now s1
             (d\<lparr>transfers :=
                  put_transfer (s1\<lparr>transfer_amount := a, transfer_fee := f, net_amount := n,
                                    investment_obj := None\<rparr>)
                    (transfers d)\<rparr>)))))"

datatype http_status =
    HTTP_200_OK
  | HTTP_400_BAD_REQUEST
  | HTTP_403_FORBIDDEN
  | HTTP_404_NOT_FOUND

definition status_name :: "transfer_status \<Rightarrow> string" where
  "status_name st =
     (case st of DRAFT \<Rightarrow> ''DRAFT'' | PENDING \<Rightarrow> ''PENDING'' | APPROVED \<Rightarrow> ''APPROVED''
        | COMPLETED \<Rightarrow> ''COMPLETED'' | CANCELLED \<Rightarrow> ''CANCELLED'' | REJECTED \<Rightarrow> ''REJECTED'')"

text \<open>
  \<^verbatim>\<open>select_related('investment')\<close>: each transfer comes with its investment row, read
  by an inner join on the foreign key, as its cached related object.
\<close>

definition select_related :: "db \<Rightarrow> ownership_transfer \<Rightarrow> ownership_transfer option" where
  "select_related d t =
     (case get_investment (tr_investment t) d of
        None \<Rightarrow> None
      | Some row \<Rightarrow> Some (t\<lparr>investment_obj := Some row\<rparr>))"

text \<open>
  \<^verbatim>\<open>OwnershipTransferViewSet.get_queryset\<close> (views.py, lines 277 to 298): the transfers
  the requesting user sends or receives, narrowed by the optional query parameters
  \<^verbatim>\<open>status\<close> (when not empty) and \<^verbatim>\<open>direction\<close>. The final \<^verbatim>\<open>order_by\<close> does not
  change which transfer a primary key finds and is left out.
\<close>

definition get_queryset ::
  "user \<Rightarrow> string option \<Rightarrow> string option \<Rightarrow> db \<Rightarrow> ownership_transfer list" where
  "get_queryset u status_filter direction d =
     (let sends = (\<lambda>t. uid (from_user t) = uid u);
          receives = (\<lambda>t. case to_user t of None \<Rightarrow> False | Some v \<Rightarrow> uid v = uid u);
          q0 = filter (\<lambda>t. sends t \<or> receives t) (transfers d);
          q1 = (case status_filter of
                  None \<Rightarrow> q0
                | Some st \<Rightarrow> if st = [] then q0
                             else filter (\<lambda>t. status_name (tr_status t) = st) q0);
          q2 = (if direction = Some ''outgoing'' then filter sends q1
                else if direction = Some ''incoming'' then filter receives q1
                else q1)
      in List.map_filter (select_related d) q2)"

text \<open>
  The \<^verbatim>\<open>complete\<close> action of the view set (views.py, lines 429 to 453) for an
  authenticated user and the query parameters of the request: \<^verbatim>\<open>IsAdminUser\<close> refuses a
  user who is not staff, \<^verbatim>\<open>get_object\<close> answers 404 for a transfer outside the
  queryset, then the status guard, then the save that sends the signal. An exception of
  the save reaches the framework (\<open>Inl\<close>).
\<close>

definition complete ::
  "int \<Rightarrow> user \<Rightarrow> string option \<Rightarrow> string option \<Rightarrow> nat \<Rightarrow> db
     \<Rightarrow> py_error + (http_status \<times> db)" where
  "complete now request_user status_filter direction pk d =
     (if \<not> is_staff request_user then Inr (HTTP_403_FORBIDDEN, d)
      else (case find (\<lambda>t. tr_id t = pk) (get_queryset request_user status_filter direction d) of
              None \<Rightarrow> Inr (HTTP_404_NOT_FOUND, d)
            | Some transfer \<Rightarrow>
                if tr_status transfer \<noteq> APPROVED then Inr (HTTP_400_BAD_REQUEST, d)
                else bind_result
                       (OwnershipTransfer_save now (transfer\<lparr>tr_status := COMPLETED\<rparr>) d)
                       (\<lambda>(t, d'). Inr (HTTP_200_OK, d'))))"

section \<open>Analytics (investments/utils.py)\<close>

text \<open>
  Python floats and the library routines over them (\<^verbatim>\<open>scipy.optimize.newton\<close>,
  \<^verbatim>\<open>numpy.average\<close>) are parameters of the model: \<open>'f\<close> is the type of float values
  and the record holds the operations the code applies to them. An operation that can
  raise returns a sum.
\<close>

record 'f float_ops =
  float_lit :: "rat \<Rightarrow> 'f"
  fadd :: "'f \<Rightarrow> 'f \<Rightarrow> 'f"
  fdiv :: "'f \<Rightarrow> 'f \<Rightarrow> py_error + 'f"
  fpow :: "'f \<Rightarrow> 'f \<Rightarrow> py_error + 'f"
  newton :: "('f \<Rightarrow> py_error + 'f) \<Rightarrow> 'f \<Rightarrow> nat \<Rightarrow> py_error + 'f"
  percent_decimal :: "'f \<Rightarrow> py_error + rat"
  average_decimal :: "'f list \<Rightarrow> 'f list \<Rightarrow> py_error + rat"

text \<open>
  The list comprehension and \<^verbatim>\<open>sum\<close> of the nested \<^verbatim>\<open>xnpv\<close>:
  \<^verbatim>\<open>sum([cf / (1 + rate) ** (day / 365.0) for day, cf in zip(days, cash_flows)])\<close>.
\<close>

fun xnpv_terms :: "'f float_ops \<Rightarrow> 'f \<Rightarrow> (int \<times> 'f) list \<Rightarrow> py_error + 'f list" where
  "xnpv_terms ops rate [] = Inr []"
| "xnpv_terms ops rate ((day, cf) # rest) =
     bind_result (fdiv ops (float_lit ops (of_int day)) (float_lit ops 365)) (\<lambda>t.
     bind_result (fpow ops (fadd ops (float_lit ops 1) rate) t) (\<lambda>p.
     bind_result (fdiv ops cf p) (\<lambda>term.
     bind_result (xnpv_terms ops rate rest) (\<lambda>terms. Inr (term # terms)))))"

definition xnpv :: "'f float_ops \<Rightarrow> 'f \<Rightarrow> int list \<Rightarrow> 'f list \<Rightarrow> py_error + 'f" where
  "xnpv ops rate days cash_flows =
     bind_result (xnpv_terms ops rate (zip days cash_flows)) (\<lambda>terms.
       Inr (foldl (fadd ops) (float_lit ops 0) terms))"

text \<open>\<^verbatim>\<open>min\<close> of a list raises on the empty list.\<close>

definition py_min :: "int list \<Rightarrow> py_error + int" where
  "py_min xs = (case xs of [] \<Rightarrow> Inl OtherError | x # rest \<Rightarrow> Inr (fold min rest x))"

text \<open>
  \<^verbatim>\<open>xirr(dates, cash_flows, guess)\<close>. Dates are day numbers. \<open>Inr None\<close> is the
  return value \<^verbatim>\<open>None\<close>, \<open>Inl\<close> an exception leaving the function. The bare
  \<^verbatim>\<open>except\<close> turns every exception of the \<^verbatim>\<open>newton\<close> call into \<^verbatim>\<open>None\<close>.
\<close>

definition xirr :: "'f float_ops \<Rightarrow> int list \<Rightarrow> 'f list \<Rightarrow> 'f \<Rightarrow> py_error + 'f option" where
  "xirr ops dates cash_flows guess =
     (if length dates \<noteq> length cash_flows then Inr None
      else if length dates < 2 then Inr None
      else bind_result (py_min dates) (\<lambda>first_date.
             let days = map (\<lambda>d. d - first_date) dates
             in (case newton ops (\<lambda>r. xnpv ops r days cash_flows) guess 100 of
                   Inl e \<Rightarrow> Inr None
                 | Inr result \<Rightarrow> Inr (Some result))))"

text \<open>The default argument \<^verbatim>\<open>guess=0.1\<close>.\<close>

definition xirr_default :: "'f float_ops \<Rightarrow> int list \<Rightarrow> 'f list \<Rightarrow> py_error + 'f option" where
  "xirr_default ops dates cash_flows = xirr ops dates cash_flows (float_lit ops (1 / 10))"

text \<open>
  The loop of \<^verbatim>\<open>calculate_investment_irr\<close> (lines 38 to 45) over the activities, and the
  two appends after it (lines 48 and 49).
\<close>

definition cash_flow_of :: "'f float_ops \<Rightarrow> capital_activity \<Rightarrow> 'f" where
  "cash_flow_of ops activity =
     (if ca_type activity \<in> {INITIAL_INVESTMENT, CAPITAL_CALL}
      then float_lit ops (dec_neg (dec_abs (amount activity)))
      else float_lit ops (dec_abs (amount activity)))"

definition build_cash_flows ::
  "'f float_ops \<Rightarrow> int \<Rightarrow> investment \<Rightarrow> capital_activity list \<Rightarrow> int list \<times> 'f list" where
  "build_cash_flows ops today investment activities =
     (map ca_date activities @ [today],
      map (cash_flow_of ops) activities @ [float_lit ops (current_value investment)])"

text \<open>
  \<^verbatim>\<open>investment.capital_activities.order_by('date')\<close>: the rows of the investment, by
  date; rows of one date keep their table order.
\<close>

definition activities_by_date :: "investment \<Rightarrow> db \<Rightarrow> capital_activity list" where
  "activities_by_date investment d =
     sort_key ca_date (filter (\<lambda>a. ca_investment a = inv_id investment) (capital_activities d))"

text \<open>
  \<^verbatim>\<open>calculate_investment_irr\<close>: the \<^verbatim>\<open>except Exception\<close> branch and the result
  \<^verbatim>\<open>None\<close> of \<^verbatim>\<open>xirr\<close> both give \<^verbatim>\<open>Decimal('0.00')\<close>.
\<close>

definition calculate_investment_irr :: "'f float_ops \<Rightarrow> int \<Rightarrow> investment \<Rightarrow> db \<Rightarrow> rat" where
  "calculate_investment_irr ops today investment d =
     (let activities = activities_by_date investment d
      in if activities = [] then 0
         else (let (dates, cash_flows) = build_cash_flows ops today investment activities
               in (case xirr_default ops dates cash_flows of
                     Inl e \<Rightarrow> 0
                   | Inr None \<Rightarrow> 0
                   | Inr (Some irr) \<Rightarrow>
                       (case percent_decimal ops irr of Inl e \<Rightarrow> 0 | Inr p \<Rightarrow> p))))"

record metrics =
  m_total_value :: rat
  m_total_invested :: rat
  unrealized_gains :: rat
  unrealized_gains_percentage :: rat
  average_irr :: rat
  num_investments :: nat

definition portfolio_investments :: "nat \<Rightarrow> db \<Rightarrow> investment list" where
  "portfolio_investments user_id d =
     filter (\<lambda>r. inv_user r = user_id \<and> inv_status r \<in> {ACTIVE, UNDERPERFORMING})
       (investments d)"

text \<open>
  \<^verbatim>\<open>calculate_portfolio_metrics\<close>. The two database sums are exact sums of stored
  amounts; \<^verbatim>\<open>numpy.average\<close> can raise, outside any \<^verbatim>\<open>try\<close>.
\<close>

definition calculate_portfolio_metrics ::
  "'f float_ops \<Rightarrow> int \<Rightarrow> nat \<Rightarrow> db \<Rightarrow> py_error + metrics" where
  "calculate_portfolio_metrics ops today user_id d =
     (let invs = portfolio_investments user_id d
      in if invs = []
         then Inr \<lparr>m_total_value = 0, m_total_invested = 0, unrealized_gains = 0,
                   unrealized_gains_percentage = 0, average_irr = 0, num_investments = 0\<rparr>
         else (let total_value = sum_list (map current_value invs);
                   total_inv = sum_list (map total_invested invs);
                   gains = dec_sub total_value total_inv;
                   gains_pct = (if total_inv > 0 then dec_mul (dec_div gains total_inv) 100 else 0);
                   weighted = filter (\<lambda>(irr, w). irr \<noteq> 0)
                                (map (\<lambda>r. (calculate_investment_irr ops today r d, total_invested r))
                                   invs);
                   irr_values = map (\<lambda>(irr, w). float_lit ops irr) weighted;
                   weights = map (\<lambda>(irr, w). float_lit ops w) weighted
               in bind_result
                    (if irr_values \<noteq> [] then average_decimal ops irr_values weights else Inr 0)
                    (\<lambda>avg. Inr \<lparr>m_total_value = total_value, m_total_invested = total_inv,
                                 unrealized_gains = gains,
                                 unrealized_gains_percentage = gains_pct,
                                 average_irr = avg, num_investments = length invs\<rparr>)))"

section \<open>Notions used in the statements\<close>

text \<open>
  Whether the table records the transfer as processed. A settlement that commits turns
  this on; one that fails leaves it as it was, whatever the instance in memory says.
\<close>

definition recorded_processed :: "nat \<Rightarrow> db \<Rightarrow> bool" where
  "recorded_processed k d =
     (case get_transfer k d of None \<Rightarrow> False | Some t \<Rightarrow> is_processed t)"

text \<open>A capital activity row without the sign of its stored amount.\<close>

definition unsigned :: "capital_activity \<Rightarrow> capital_activity" where
  "unsigned a = a\<lparr>amount := \<bar>amount a\<bar>\<rparr>"

text \<open>
  The flow an activity is said to contribute to the IRR series: minus the absolute amount
  for the two kinds of payment into the fund, the absolute amount for the two kinds of
  payment out of it.
\<close>

definition normalized_amount :: "capital_activity \<Rightarrow> rat" where
  "normalized_amount a =
     (if ca_type a \<in> {INITIAL_INVESTMENT, CAPITAL_CALL} then - \<bar>amount a\<bar> else \<bar>amount a\<bar>)"

text \<open>
  The investment row that receives the credit of a settlement, read off the database as
  it is before the settlement: the recipient's investment of the seller's fund name, or a
  new row with balances 0 under a fresh key when the recipient has none. When the
  recipient is the owner of the seller's investment it is the seller's row itself, as the
  debit leaves it.
\<close>

definition buyer_row :: "int \<Rightarrow> ownership_transfer \<Rightarrow> user \<Rightarrow> investment \<Rightarrow> db \<Rightarrow> investment" where
  "buyer_row today instance buyer seller_investment d =
     (if inv_user seller_investment = uid buyer
      then stored (seller_update instance seller_investment)
      else (case filter (\<lambda>r. inv_user r = uid buyer \<and> inv_name r = inv_name seller_investment)
                   (investments d) of
              [] \<Rightarrow> new_investment today (uid buyer) (inv_name seller_investment)
                      seller_investment (investments d)
            | r # rest \<Rightarrow> r))"

section \<open>Example data\<close>

text \<open>
  A stand-in for the float operations, to run the analytics on examples: rational
  arithmetic, with a root finder that never converges.
\<close>

definition rat_ops :: "rat float_ops" where
  "rat_ops =
     \<lparr>float_lit = (\<lambda>x. x),
      fadd = (\<lambda>x y. x + y),
      fdiv = (\<lambda>x y. if y = 0 then Inl ZeroDivisionError else Inr (x / y)),
      fpow = (\<lambda>b t. if b = 0 \<and> t < 0 then Inl ZeroDivisionError
                     else Inr (if t = 0 then 1 else b)),
      newton = (\<lambda>f guess maxiter. Inl RuntimeError),
      percent_decimal = (\<lambda>x. Inr (quantize2 (x * 100))),
      average_decimal = (\<lambda>xs ws. if sum_list ws = 0 then Inl ZeroDivisionError
                                  else Inr (quantize2 (sum_list (map2 (*) xs ws) / sum_list ws)))\<rparr>"

text \<open>
  A second stand-in whose root finder stops at once and returns the value of the function
  at the guess, so that the result depends on every flow of the series.
\<close>

definition probe_ops :: "rat float_ops" where
  "probe_ops = rat_ops\<lparr>newton := (\<lambda>f guess maxiter. f guess)\<rparr>"

definition alice :: user where
  "alice = \<lparr>uid = 1, email = ''alice@example.com'', is_staff = False\<rparr>"

definition bob :: user where
  "bob = \<lparr>uid = 2, email = ''bob@example.com'', is_staff = False\<rparr>"

definition carol :: user where
  "carol = \<lparr>uid = 3, email = ''carol@example.com'', is_staff = True\<rparr>"

definition fund :: "nat \<Rightarrow> nat \<Rightarrow> inv_status \<Rightarrow> rat \<Rightarrow> rat \<Rightarrow> investment" where
  "fund i u st ti cv =
     \<lparr>inv_id = i, inv_user = u, inv_name = ''Inv1'', inv_status = st, sector = ''TECHNOLOGY'',
      total_invested = ti, current_value = cv, manager = ''GP'', investment_date = 0,
      fund_vintage = None\<rparr>"

definition transfer_of :: "transfer_type \<Rightarrow> rat \<Rightarrow> transfer_status \<Rightarrow> ownership_transfer" where
  "transfer_of ty a st =
     \<lparr>tr_id = 7, tr_investment = 1, from_user = alice, to_user = Some bob, transfer_type = ty,
      transfer_amount = a, transfer_fee = 0, net_amount = 0, tr_status = st,
      is_processed = False, completion_date = None, estimated_completion_date = None,
      investment_obj = None\<rparr>"

text \<open>A transfer instance as a view loads it, with its investment row attached.\<close>

definition loaded :: "ownership_transfer \<Rightarrow> investment \<Rightarrow> ownership_transfer" where
  "loaded t row = t\<lparr>investment_obj := Some row\<rparr>"

definition ledger :: "investment list \<Rightarrow> ownership_transfer \<Rightarrow> db" where
  "ledger rows t =
     \<lparr>investments = rows, capital_activities = [], performance_snapshots = [],
      transfers = [t], user_activities = []\<rparr>"

definition activity :: "activity_type \<Rightarrow> rat \<Rightarrow> capital_activity" where
  "activity ty amt =
     \<lparr>ca_investment = 1, ca_type = ty, amount = amt, ca_date = 0, details = ''seed''\<rparr>"

section \<open>Properties of the decimal arithmetic\<close>

lemma round_half_even_of_int: "round_half_even (of_int n) = n"
  by (simp add: round_half_even_def)

lemma pow10_powi: "pow10 e = 10 powi e"
  by (simp add: pow10_def power_int_def inverse_eq_divide power_one_over)

lemma digits_lower: "0 < n \<Longrightarrow> 10 ^ (digits n - 1) \<le> n"
proof (induction n rule: digits.induct)
  case (1 n)
  show ?case
  proof (cases "n < 10")
    case True
    with 1(2) show ?thesis by (subst digits.simps) simp
  next
    case False
    then have "0 < n div 10" by simp
    with 1(1) False have IH: "10 ^ (digits (n div 10) - 1) \<le> n div 10" by simp
    have "digits (n div 10) \<ge> 1" by (subst digits.simps) simp
    then have e: "digits n - 1 = Suc (digits (n div 10) - 1)"
      using False by (subst digits.simps) simp
    have "10 ^ (digits n - 1) = 10 * 10 ^ (digits (n div 10) - 1)"
      unfolding e by simp
    also have "\<dots> \<le> 10 * (n div 10)" using IH by simp
    also have "\<dots> \<le> n" by simp
    finally show ?thesis .
  qed
qed

lemma digits_upper: "n < 10 ^ digits n"
proof (induction n rule: digits.induct)
  case (1 n)
  show ?case
  proof (cases "n < 10")
    case True
    then show ?thesis by (subst digits.simps) simp
  next
    case False
    with 1 have IH: "n div 10 < 10 ^ digits (n div 10)" by simp
    have "n < 10 * (n div 10 + 1)" by presburger
    also have "\<dots> \<le> 10 * 10 ^ digits (n div 10)" using IH by simp
    also have "\<dots> = 10 ^ digits n" using False by (subst (2) digits.simps) simp
    finally show ?thesis .
  qed
qed

lemma adjusted_le:
  assumes "x \<noteq> 0"
  shows "pow10 (adjusted x) \<le> \<bar>x\<bar>"
proof -
  obtain n d where q: "quotient_of \<bar>x\<bar> = (n, d)" by (cases "quotient_of \<bar>x\<bar>")
  have d: "0 < d" using quotient_of_denom_pos[OF q] .
  have x: "\<bar>x\<bar> = of_int n / of_int d" using quotient_of_div[OF q] .
  have "0 < \<bar>x\<bar>" using assms by simp
  then have n: "0 < n" using d x by (simp add: zero_less_divide_iff)
  define a where "a = digits n"
  define b where "b = digits d"
  have a1: "1 \<le> a" unfolding a_def by (subst digits.simps) simp
  have "10 ^ (a - 1) \<le> n" unfolding a_def using n by (rule digits_lower)
  then have "(of_int (10 ^ (a - 1)) :: rat) \<le> of_int n" by (simp only: of_int_le_iff)
  then have lo: "(10::rat) ^ (a - 1) \<le> of_int n" by simp
  have "d < 10 ^ b" unfolding b_def by (rule digits_upper)
  then have "(of_int d :: rat) < of_int (10 ^ b)" by (simp only: of_int_less_iff)
  then have hi: "of_int d < (10::rat) ^ b" by simp
  have "(10::rat) powi (int a - int b - 1) = 10 ^ (a - 1) / 10 ^ b"
  proof -
    have "int a - int b - 1 = int (a - 1) - int b" using a1 by simp
    then have "(10::rat) powi (int a - int b - 1) = 10 powi (int (a - 1) - int b)"
      by (rule arg_cong)
    also have "\<dots> = 10 powi int (a - 1) / 10 powi int b" by (rule power_int_diff) simp
    finally show ?thesis by simp
  qed
  also have "\<dots> \<le> of_int n / of_int d"
    using lo hi d n by (intro frac_le) auto
  finally have low: "pow10 (int a - int b - 1) \<le> \<bar>x\<bar>" by (simp add: pow10_powi x)
  have "adjusted x = (if pow10 (int a - int b) \<le> \<bar>x\<bar> then int a - int b else int a - int b - 1)"
    unfolding adjusted_def a_def b_def q by (simp add: Let_def)
  then show ?thesis using low by simp
qed

lemma ctx_round_exact:
  assumes c: "x * 10 ^ k = of_int c" and b: "\<bar>c\<bar> < 10 ^ 28"
  shows "ctx_round x = x"
proof (cases "x = 0")
  case True
  then show ?thesis by (simp add: ctx_round_def)
next
  case False
  define e where "e = adjusted x"
  have xk: "x = of_int c / 10 ^ k" using c by (simp add: field_simps)
  have "\<bar>x\<bar> = of_int \<bar>c\<bar> / 10 ^ k" by (simp add: xk abs_divide)  
  also have "\<dots> < 10 ^ 28 / 10 ^ k"
  proof -
    have "(of_int \<bar>c\<bar> :: rat) < of_int (10 ^ 28)" using b by (simp only: of_int_less_iff)
    then show ?thesis by (simp add: divide_strict_right_mono)
  qed
  also have "\<dots> = 10 powi (28 - int k)" by (simp add: power_int_diff)
  finally have "pow10 e < 10 powi (28 - int k)"
    using adjusted_le[OF False] by (simp add: e_def)
  then have lt: "(10::rat) powi e < 10 powi (28 - int k)" by (simp add: pow10_powi)
  have "e < 28 - int k"
  proof (rule ccontr)
    assume "\<not> e < 28 - int k"
    then have "28 - int k \<le> e" by simp
    then have "(10::rat) powi (28 - int k) \<le> 10 powi e" by (rule power_int_increasing) simp
    with lt show False by simp
  qed
  then have "0 \<le> - int k - (e - 27)" by simp
  then obtain j :: nat where "- int k - (e - 27) = int j" by (rule nonneg_int_cases)
  then have j: "e - 27 = - int k - int j" by simp
  have q: "pow10 (e - 27) = 1 / (10 ^ k * 10 ^ j)"
    unfolding j pow10_powi
    by (simp add: power_int_diff power_int_minus field_simps)
  have m: "x / pow10 (e - 27) = of_int (c * 10 ^ j)"
    unfolding q xk by simp
  have "of_int (round_half_even (x / pow10 (e - 27))) * pow10 (e - 27)
          = of_int (c * 10 ^ j) * pow10 (e - 27)"
    unfolding m round_half_even_of_int ..
  also have "\<dots> = x" unfolding q xk by simp
  finally have "of_int (round_half_even (x / pow10 (e - 27))) * pow10 (e - 27) = x" .
  then show ?thesis using False by (simp add: ctx_round_def Let_def e_def)
qed

section \<open>Database steps\<close>

lemma bind_result_Inr_iff: "bind_result m f = Inr y \<longleftrightarrow> (\<exists>x. m = Inr x \<and> f x = Inr y)"
  by (cases m) (simp_all add: bind_result_def)

lemma to_db_Inr: "to_db x = Inr v \<Longrightarrow> v = quantize2 x"
  by (simp add: to_db_def Let_def split: if_splits)

lemma quantize2_zero: "quantize2 0 = 0"
  by (simp add: quantize2_def round_half_even_def)

lemma to_db_zero: "to_db 0 = Inr 0"
  by (simp add: to_db_def quantize2_zero)

lemma find_map_replace:
  "find (\<lambda>r. inv_id r = i) (map (\<lambda>r. if inv_id r = inv_id x then x else r) rows) =
     (if inv_id x = i \<and> (\<exists>r \<in> set rows. inv_id r = i) then Some x
      else find (\<lambda>r. inv_id r = i) rows)"
  by (induction rows) auto

lemma find_append_row:
  "find P (rows @ [x]) = (case find P rows of None \<Rightarrow> (if P x then Some x else None) | Some r \<Rightarrow> Some r)"
  by (induction rows) auto

lemma find_None_ids: "find (\<lambda>r. inv_id r = i) rows = None \<longleftrightarrow> (\<forall>r \<in> set rows. inv_id r \<noteq> i)"
  by (induction rows) auto

lemma find_put_investment:
  "find (\<lambda>r. inv_id r = i) (put_investment x rows) =
     (if inv_id x = i then Some x else find (\<lambda>r. inv_id r = i) rows)"
proof (cases "\<exists>r \<in> set rows. inv_id r = inv_id x")
  case True
  then show ?thesis by (auto simp: put_investment_def find_map_replace)
next
  case False
  then have "find (\<lambda>r. inv_id r = inv_id x) rows = None" by (simp add: find_None_ids)
  with False show ?thesis
    by (auto simp: put_investment_def find_append_row split: option.splits)
qed

lemma fold_max_ge: "a \<le> fold max ids (a::nat)"
  by (induction ids arbitrary: a) (auto intro: order_trans[OF max.cobounded2])

lemma fold_max_mem: "i \<in> set ids \<Longrightarrow> i \<le> fold max ids (a::nat)"
proof (induction ids arbitrary: a)
  case Nil
  then show ?case by simp
next
  case (Cons x xs)
  show ?case
  proof (cases "i = x")
    case True
    have "x \<le> max x a" by simp
    also have "\<dots> \<le> fold max xs (max x a)" by (rule fold_max_ge)
    finally show ?thesis using True by simp
  next
    case False
    with Cons show ?thesis by simp
  qed
qed

lemma fresh_id_notin: "fresh_id ids \<notin> set ids"
proof
  assume "fresh_id ids \<in> set ids"
  then have "fresh_id ids \<le> fold max ids 0" by (rule fold_max_mem)
  then show False by (simp add: fresh_id_def)
qed

lemma create_performance_snapshot_Inr:
  assumes "create_performance_snapshot t x d = Inr d'"
  shows "investments d' = investments d \<and> capital_activities d' = capital_activities d
       \<and> transfers d' = transfers d \<and> user_activities d' = user_activities d"
  using assms
  by (auto simp: create_performance_snapshot_def Let_def bind_result_Inr_iff split: if_splits)

lemma Investment_save_Inr:
  assumes "Investment_save t x d = Inr d'"
  shows "investments d' = put_investment (stored x) (investments d)
       \<and> capital_activities d' = capital_activities d
       \<and> transfers d' = transfers d \<and> user_activities d' = user_activities d"
proof -
  from assms obtain ti cv where ti: "to_db (total_invested x) = Inr ti"
    and cv: "to_db (current_value x) = Inr cv"
    and s: "create_performance_snapshot t x
              (d\<lparr>investments := put_investment (x\<lparr>total_invested := ti, current_value := cv\<rparr>)
                 (investments d)\<rparr>) = Inr d'"
    unfolding Investment_save_def bind_result_Inr_iff by blast
  have "x\<lparr>total_invested := ti, current_value := cv\<rparr> = stored x"
    using to_db_Inr[OF ti] to_db_Inr[OF cv] by (simp add: stored_def)
  with create_performance_snapshot_Inr[OF s] show ?thesis by simp
qed

lemma CapitalActivity_create_Inr:
  assumes "CapitalActivity_create a d = Inr d'"
  shows "d' = d\<lparr>capital_activities := capital_activities d @ [a\<lparr>amount := quantize2 (amount a)\<rparr>]\<rparr>"
  using assms by (auto simp: CapitalActivity_create_def bind_result_Inr_iff dest: to_db_Inr)

lemma Investment_save_new:
  "Investment_save t (new_investment t u nm s (investments d)) d
     = Inr (d\<lparr>investments := investments d @ [new_investment t u nm s (investments d)]\<rparr>)"
proof -
  let ?n = "new_investment t u nm s (investments d)"
  have id: "\<not> (\<exists>r \<in> set (investments d). inv_id r = inv_id ?n)"
    using fresh_id_notin[of "map inv_id (investments d)"] by (auto simp: new_investment_def image_iff)
  have st: "?n\<lparr>total_invested := 0, current_value := 0\<rparr> = ?n" by (simp add: new_investment_def)
  have cv: "current_value ?n = 0" "total_invested ?n = 0" by (simp_all add: new_investment_def)
  show ?thesis
    unfolding Investment_save_def cv to_db_zero bind_result_def
    using id by (simp add: st put_investment_def create_performance_snapshot_def cv)
qed

lemma get_or_create_Inr:
  assumes "get_or_create t u nm s d = Inr (b, d')"
  shows "(filter (\<lambda>r. inv_user r = u \<and> inv_name r = nm) (investments d) = [b] \<and> d' = d)
       \<or> (filter (\<lambda>r. inv_user r = u \<and> inv_name r = nm) (investments d) = []
            \<and> b = new_investment t u nm s (investments d)
            \<and> d' = d\<lparr>investments := investments d @ [b]\<rparr>)"
proof (cases "filter (\<lambda>r. inv_user r = u \<and> inv_name r = nm) (investments d)")
  case Nil
  have "get_or_create t u nm s d =
          bind_result (Investment_save t (new_investment t u nm s (investments d)) d)
            (\<lambda>d'. Inr (new_investment t u nm s (investments d), d'))"
    unfolding get_or_create_def Nil by (simp add: Let_def)
  with assms Nil show ?thesis
    by (auto simp: Investment_save_new bind_result_def)
next
  case (Cons r rest)
  with assms show ?thesis
    by (cases rest) (simp_all add: get_or_create_def)
qed

lemma pre_save_fields:
  "is_processed (pre_save now x) = is_processed x"
  "tr_status (pre_save now x) = tr_status x"
  "tr_id (pre_save now x) = tr_id x"
  "transfer_amount (pre_save now x) = transfer_amount x"
  "completion_date (pre_save now x) = completion_date x"
  "to_user (pre_save now x) = to_user x"
  "from_user (pre_save now x) = from_user x"
  "tr_investment (pre_save now x) = tr_investment x"
  "transfer_type (pre_save now x) = transfer_type x"
  "investment_obj (pre_save now x) = investment_obj x"
  by (simp_all add: pre_save_def Let_def)

lemma in_memory_Inr_iff: "in_memory x m = Inr y \<longleftrightarrow> m = Inr y"
  by (cases m) (simp_all add: in_memory_def)

lemma in_memory_Inl_iff: "in_memory x m = Inl z \<longleftrightarrow> (\<exists>e. m = Inl e \<and> z = (e, x))"
  by (cases m) (auto simp: in_memory_def)

lemma save_update_fields_Inr:
  assumes "save_update_fields now x d = Inr (x', d')"
  shows "x' = pre_save now x
       \<and> d' = d\<lparr>transfers := map (\<lambda>r. if tr_id r = tr_id x
                          then r\<lparr>is_processed := is_processed x,
                                 completion_date := completion_date x\<rparr>
                          else r) (transfers d)\<rparr>
       \<and> (\<exists>r \<in> set (transfers d). tr_id r = tr_id x)"
  using assms
  by (auto simp: save_update_fields_def Let_def pre_save_fields split: if_splits)

section \<open>The atomic block, step by step\<close>

lemma seller_update_fields:
  "inv_id (seller_update i s) = inv_id s"
  "inv_user (seller_update i s) = inv_user s"
  "inv_name (seller_update i s) = inv_name s"
  "sector (seller_update i s) = sector s"
  "manager (seller_update i s) = manager s"
  "fund_vintage (seller_update i s) = fund_vintage s"
  by (simp_all add: seller_update_def Let_def)

lemma buyer_update_fields:
  "inv_id (buyer_update i b) = inv_id b"
  "inv_user (buyer_update i b) = inv_user b"
  "inv_name (buyer_update i b) = inv_name b"
  "inv_status (buyer_update i b) = inv_status b"
  by (simp_all add: buyer_update_def)

lemma stored_fields:
  "inv_id (stored x) = inv_id x"
  "inv_user (stored x) = inv_user x"
  "inv_name (stored x) = inv_name x"
  "inv_status (stored x) = inv_status x"
  "current_value (stored x) = quantize2 (current_value x)"
  "total_invested (stored x) = quantize2 (total_invested x)"
  by (simp_all add: stored_def)

text \<open>The related object an instance caches plays no part in the amounts and rows the
  settlement computes from the instance.\<close>

lemma cache_irrelevant:
  "seller_update (i\<lparr>investment_obj := c\<rparr>) s = seller_update i s"
  "buyer_update (i\<lparr>investment_obj := c\<rparr>) b = buyer_update i b"
  "seller_activity t (i\<lparr>investment_obj := c\<rparr>) u s = seller_activity t i u s"
  "buyer_activity t (i\<lparr>investment_obj := c\<rparr>) b = buyer_activity t i b"
  by (simp_all add: seller_update_def buyer_update_def seller_activity_def buyer_activity_def)

lemma activity_of_updated:
  "seller_activity t i u (seller_update i s) = seller_activity t i u s"
  "buyer_activity t i (buyer_update i b) = buyer_activity t i b"
  by (simp_all add: seller_activity_def buyer_activity_def seller_update_fields
        buyer_update_fields)

lemma settle_Inr:
  assumes "settle now (i\<lparr>investment_obj := c\<rparr>) buyer s d = Inr (i', d')"
  shows "\<exists>b rows3.
      ((filter (\<lambda>r. inv_user r = uid buyer \<and> inv_name r = inv_name s)
           (put_investment (stored (seller_update i s)) (investments d)) = [b]
         \<and> rows3 = put_investment (stored (seller_update i s)) (investments d))
       \<or> (filter (\<lambda>r. inv_user r = uid buyer \<and> inv_name r = inv_name s)
           (put_investment (stored (seller_update i s)) (investments d)) = []
         \<and> b = new_investment (date_of now) (uid buyer) (inv_name s) (seller_update i s)
                 (put_investment (stored (seller_update i s)) (investments d))
         \<and> rows3 = put_investment (stored (seller_update i s)) (investments d) @ [b]))
    \<and> investments d' = put_investment (stored (buyer_update i b)) rows3
    \<and> capital_activities d' = capital_activities d @
         [(seller_activity (date_of now) i buyer s)\<lparr>amount := quantize2 (transfer_amount i)\<rparr>,
          (buyer_activity (date_of now) i b)
            \<lparr>amount := quantize2 (dec_neg (transfer_amount i))\<rparr>]
    \<and> i' = pre_save now (i\<lparr>investment_obj := Some (seller_update i s), is_processed := True,
               completion_date := (case completion_date i of None \<Rightarrow> Some now | Some c \<Rightarrow> Some c)\<rparr>)
    \<and> transfers d' = map (\<lambda>r. if tr_id r = tr_id i
                          then r\<lparr>is_processed := True,
                                 completion_date := (case completion_date i of None \<Rightarrow> Some now | Some c \<Rightarrow> Some c)\<rparr>
                          else r) (transfers d)
    \<and> (\<exists>r \<in> set (transfers d). tr_id r = tr_id i)
    \<and> user_activities d' = user_activities d @
         [\<lparr>ua_user = uid (from_user i), ua_type = ''PORTFOLIO_UPDATE'',
           ua_amount = transfer_amount i, ua_transfer = tr_id i, ua_role = ''seller''\<rparr>,
          \<lparr>ua_user = uid buyer, ua_type = ''PORTFOLIO_UPDATE'',
           ua_amount = transfer_amount i, ua_transfer = tr_id i, ua_role = ''buyer''\<rparr>]"
proof -
  define s2 where "s2 = seller_update i s"
  define i1 where "i1 = i\<lparr>investment_obj := Some s2, is_processed := True,
               completion_date := (case completion_date i of None \<Rightarrow> Some now | Some c \<Rightarrow> Some c)\<rparr>"
  from assms obtain d1 d2 b d3 d4 d5 i2 d6 where
    st1: "Investment_save (date_of now) s2 d = Inr d1" and
    st2: "CapitalActivity_create (seller_activity (date_of now) i buyer s2) d1 = Inr d2" and
    st3: "get_or_create (date_of now) (uid buyer) (inv_name s2) s2 d2 = Inr (b, d3)" and
    st4: "Investment_save (date_of now) (buyer_update i b) d3 = Inr d4" and
    st5: "CapitalActivity_create (buyer_activity (date_of now) i (buyer_update i b)) d4 = Inr d5" and
    st6: "save_update_fields now i1 d5 = Inr (i2, d6)" and
    res: "i' = i2" "d' = log_activity buyer ''PORTFOLIO_UPDATE'' (transfer_amount i2) (tr_id i2) ''buyer''
                (log_activity (from_user i2) ''PORTFOLIO_UPDATE'' (transfer_amount i2)
                   (tr_id i2) ''seller'' d6)"
    by (auto simp: settle_def Let_def bind_result_Inr_iff in_memory_Inr_iff cache_irrelevant
          s2_def i1_def split: prod.splits)
  note r1 = Investment_save_Inr[OF st1]
  note r2 = CapitalActivity_create_Inr[OF st2]
  note r3 = get_or_create_Inr[OF st3]
  note r4 = Investment_save_Inr[OF st4]
  note r5 = CapitalActivity_create_Inr[OF st5]
  note r6 = save_update_fields_Inr[OF st6]
  have inv2: "investments d2 = put_investment (stored s2) (investments d)"
    using r1 r2 by simp
  have nm: "inv_name s2 = inv_name s" by (simp add: s2_def seller_update_fields)
  have i2: "i2 = pre_save now i1" using r6 by simp
  have A: "(filter (\<lambda>r. inv_user r = uid buyer \<and> inv_name r = inv_name s)
           (put_investment (stored s2) (investments d)) = [b]
         \<and> investments d3 = put_investment (stored s2) (investments d))
       \<or> (filter (\<lambda>r. inv_user r = uid buyer \<and> inv_name r = inv_name s)
           (put_investment (stored s2) (investments d)) = []
         \<and> b = new_investment (date_of now) (uid buyer) (inv_name s) s2
                 (put_investment (stored s2) (investments d))
         \<and> investments d3 = put_investment (stored s2) (investments d) @ [b])"
    using r3 inv2 nm by auto
  have B: "investments d' = put_investment (stored (buyer_update i b)) (investments d3)"
    unfolding res using r4 r5 r6 by (simp add: log_activity_def)
  have ca3: "capital_activities d3 = capital_activities d2" using r3 by auto
  have C: "capital_activities d' = capital_activities d @
         [(seller_activity (date_of now) i buyer s)\<lparr>amount := quantize2 (transfer_amount i)\<rparr>,
          (buyer_activity (date_of now) i b)
            \<lparr>amount := quantize2 (dec_neg (transfer_amount i))\<rparr>]"
    unfolding res using r1 r2 ca3 r4 r5 r6
    by (simp add: log_activity_def seller_activity_def buyer_activity_def s2_def
          seller_update_fields buyer_update_fields)
  have tr3: "transfers d3 = transfers d2" "user_activities d3 = user_activities d2" using r3 by auto
  have tr5: "transfers d5 = transfers d" "user_activities d5 = user_activities d"
    using r1 r2 tr3 r4 r5 by simp_all
  have D: "transfers d' = map (\<lambda>r. if tr_id r = tr_id i
                          then r\<lparr>is_processed := True,
                                 completion_date := (case completion_date i of None \<Rightarrow> Some now | Some c \<Rightarrow> Some c)\<rparr>
                          else r) (transfers d)"
    unfolding res using r6 tr5 by (simp add: log_activity_def i1_def)
  have E: "\<exists>r \<in> set (transfers d). tr_id r = tr_id i"
    using r6 tr5 by (simp add: i1_def)
  have F: "user_activities d' = user_activities d @
         [\<lparr>ua_user = uid (from_user i), ua_type = ''PORTFOLIO_UPDATE'',
           ua_amount = transfer_amount i, ua_transfer = tr_id i, ua_role = ''seller''\<rparr>,
          \<lparr>ua_user = uid buyer, ua_type = ''PORTFOLIO_UPDATE'',
           ua_amount = transfer_amount i, ua_transfer = tr_id i, ua_role = ''buyer''\<rparr>]"
    unfolding res using r6 tr5 by (simp add: log_activity_def i2 pre_save_fields i1_def)
  from A B C D E F res(1) i2 show ?thesis
    unfolding s2_def i1_def by blast
qed

text \<open>The instance a failed block leaves in memory: the one it was given with the changed
  seller object, and after line 132 with the flag, the date and the recomputed amounts.\<close>

lemma settle_Inl:
  assumes "settle now (i\<lparr>investment_obj := c\<rparr>) buyer s d = Inl (e, x)"
  shows "x = i\<lparr>investment_obj := Some (seller_update i s)\<rparr>
       \<or> x = pre_save now (i\<lparr>investment_obj := Some (seller_update i s), is_processed := True,
               completion_date := (case completion_date i of None \<Rightarrow> Some now | Some c \<Rightarrow> Some c)\<rparr>)"
  using assms
  by (auto simp: settle_def Let_def bind_result_def in_memory_def cache_irrelevant
        split: sum.splits prod.splits)

section \<open>The receiver: cases and repeated runs\<close>

lemma handler_cases:
  assumes "handle_transfer_completion now i d = Inr (i', d')"
  shows "(i' = i \<and> d' = d)
       \<or> (tr_status i = COMPLETED \<and> \<not> is_processed i
           \<and> (\<exists>buyer s. to_user i = Some buyer \<and> related_investment i d = Inr s
                 \<and> ((current_value s < transfer_amount i
                       \<and> i' = i\<lparr>investment_obj := Some s\<rparr> \<and> d' = d)
                    \<or> (\<not> current_value s < transfer_amount i \<and> d' = d
                       \<and> (\<exists>e. settle now (i\<lparr>investment_obj := Some s\<rparr>) buyer s d = Inl (e, i')))
                    \<or> (\<not> current_value s < transfer_amount i
                       \<and> settle now (i\<lparr>investment_obj := Some s\<rparr>) buyer s d = Inr (i', d')))))"
  using assms
  by (auto simp: handle_transfer_completion_def Let_def
        split: if_splits option.splits sum.splits prod.splits)

text \<open>The table records the transfer as processed after the call and not before only
  when the atomic block has committed.\<close>

lemma handler_committed:
  assumes "handle_transfer_completion now i d = Inr (i', d')"
    and "\<not> recorded_processed (tr_id i) d" and "recorded_processed (tr_id i) d'"
  shows "tr_status i = COMPLETED \<and> \<not> is_processed i
       \<and> (\<exists>buyer s. to_user i = Some buyer \<and> related_investment i d = Inr s
             \<and> \<not> current_value s < transfer_amount i
             \<and> settle now (i\<lparr>investment_obj := Some s\<rparr>) buyer s d = Inr (i', d'))"
  using handler_cases[OF assms(1)] assms(2,3) by auto

lemma settle_is_processed:
  assumes "settle now (i\<lparr>investment_obj := c\<rparr>) buyer s d = Inr (i', d')"
  shows "is_processed i'" and "tr_status i' = tr_status i"
  using settle_Inr[OF assms] by (auto simp: pre_save_fields)

lemma find_transfer_update:
  assumes "\<exists>r \<in> set rows. tr_id r = k"
  shows "\<exists>t. find (\<lambda>r. tr_id r = k)
            (map (\<lambda>r. if tr_id r = k then r\<lparr>is_processed := True, completion_date := c\<rparr> else r) rows)
          = Some t \<and> is_processed t"
  using assms by (induction rows) auto

lemma settle_recorded:
  assumes "settle now (i\<lparr>investment_obj := c\<rparr>) buyer s d = Inr (i', d')"
  shows "recorded_processed (tr_id i) d'"
proof -
  from settle_Inr[OF assms] have
    tr: "transfers d' = map (\<lambda>r. if tr_id r = tr_id i
                          then r\<lparr>is_processed := True,
                                 completion_date := (case completion_date i of None \<Rightarrow> Some now | Some c \<Rightarrow> Some c)\<rparr>
                          else r) (transfers d)"
    and ex: "\<exists>r \<in> set (transfers d). tr_id r = tr_id i" by blast+
  from find_transfer_update[OF ex] obtain t where
    "find (\<lambda>r. tr_id r = tr_id i)
       (map (\<lambda>r. if tr_id r = tr_id i
                 then r\<lparr>is_processed := True,
                        completion_date := (case completion_date i of None \<Rightarrow> Some now | Some c \<Rightarrow> Some c)\<rparr>
                 else r) (transfers d)) = Some t" and "is_processed t"
    by blast
  then show ?thesis
    unfolding recorded_processed_def get_transfer_def tr by simp
qed

lemma handler_processed:
  assumes "is_processed i"
  shows "handle_transfer_completion now i d = Inr (i, d)"
  using assms by (simp add: handle_transfer_completion_def)

lemma run_handler_fixed:
  assumes "handle_transfer_completion now i d = Inr (i, d)"
  shows "run_handler n now i d = Inr (i, d)"
  using assms by (induction n) (simp_all add: bind_result_def)

lemma run_handler_step:
  assumes "handle_transfer_completion now i d = Inr (i', d')"
    and "handle_transfer_completion now i' d' = Inr (i', d')"
  shows "run_handler (Suc n) now i d = Inr (i', d')"
  using assms(1) run_handler_fixed[OF assms(2), of n] by (simp add: bind_result_def)

lemma related_loaded: "related_investment (i\<lparr>investment_obj := Some s\<rparr>) d = Inr s"
  by (simp add: related_investment_def)

lemma handler_rejects:
  assumes "tr_status i = COMPLETED"
    and "related_investment i d = Inr s"
    and "current_value s < transfer_amount i"
  shows "handle_transfer_completion now i d =
           Inr (if is_processed i \<or> to_user i = None then i else i\<lparr>investment_obj := Some s\<rparr>, d)"
  using assms by (auto simp: handle_transfer_completion_def Let_def split: option.splits)

lemma handler_rejects_again:
  assumes "tr_status i = COMPLETED"
    and "related_investment i d = Inr s"
    and "current_value s < transfer_amount i"
  shows "handle_transfer_completion now (i\<lparr>investment_obj := Some s\<rparr>) d =
           Inr (i\<lparr>investment_obj := Some s\<rparr>, d)"
  using assms
  by (auto simp: handle_transfer_completion_def Let_def related_loaded split: option.splits)

section \<open>Over-amount rejection\<close>

text \<open>
  Claim C4. A \<^verbatim>\<open>COMPLETED\<close> transfer whose amount exceeds the current value of the
  seller's investment is rejected without any effect: the receiver returns normally
  (\<open>Inr\<close>, no exception reaches the caller) and the whole database, every investment,
  every capital activity and the transfer row with its status and its \<^verbatim>\<open>is_processed\<close>
  flag, is the one it was given. So is the instance, in every field: the one thing that
  can differ is that the instance now holds the investment it has read, if it did not hold
  it before. For an instance that comes with its investment, as the views load it, the
  receiver returns exactly the instance and the database it was given. This holds for any
  number of runs.
\<close>

theorem over_amount_is_noop:
  assumes "tr_status i = COMPLETED"
    and "related_investment i d = Inr s"
    and "current_value s < transfer_amount i"
  shows "handle_transfer_completion now i d \<in> {Inr (i, d), Inr (i\<lparr>investment_obj := Some s\<rparr>, d)}
       \<and> run_handler n now i d \<in> {Inr (i, d), Inr (i\<lparr>investment_obj := Some s\<rparr>, d)}
       \<and> (investment_obj i \<noteq> None \<longrightarrow>
            handle_transfer_completion now i d = Inr (i, d) \<and> run_handler n now i d = Inr (i, d))"
proof -
  note h = handler_rejects[OF assms, of now]
  have 1: "handle_transfer_completion now i d \<in> {Inr (i, d), Inr (i\<lparr>investment_obj := Some s\<rparr>, d)}"
    unfolding h by simp
  have 2: "run_handler n now i d \<in> {Inr (i, d), Inr (i\<lparr>investment_obj := Some s\<rparr>, d)}"
  proof (cases n)
    case 0
    then show ?thesis by simp
  next
    case (Suc m)
    show ?thesis
    proof (cases "is_processed i \<or> to_user i = None")
      case True
      with h have "handle_transfer_completion now i d = Inr (i, d)" by simp
      from run_handler_fixed[OF this] show ?thesis by simp
    next
      case False
      with h have a: "handle_transfer_completion now i d = Inr (i\<lparr>investment_obj := Some s\<rparr>, d)"
        by simp
      from run_handler_step[OF a handler_rejects_again[OF assms]] Suc show ?thesis by simp
    qed
  qed
  have 3: "investment_obj i \<noteq> None \<longrightarrow>
            handle_transfer_completion now i d = Inr (i, d) \<and> run_handler n now i d = Inr (i, d)"
  proof
    assume "investment_obj i \<noteq> None"
    with assms(2) have "investment_obj i = Some s"
      by (auto simp: related_investment_def)
    then have "i\<lparr>investment_obj := Some s\<rparr> = i" by simp
    with 1 2 show "handle_transfer_completion now i d = Inr (i, d)
                 \<and> run_handler n now i d = Inr (i, d)" by simp
  qed
  from 1 2 3 show ?thesis by (intro conjI)
qed

theorem over_amount_is_noop_witness:
  "tr_status (loaded (transfer_of PARTIAL 15000 COMPLETED) (fund 1 1 ACTIVE 10000 10000)) = COMPLETED
   \<and> related_investment
        (loaded (transfer_of PARTIAL 15000 COMPLETED) (fund 1 1 ACTIVE 10000 10000))
        (ledger [fund 1 1 ACTIVE 10000 10000] (transfer_of PARTIAL 15000 COMPLETED))
       = Inr (fund 1 1 ACTIVE 10000 10000)
   \<and> current_value (fund 1 1 ACTIVE 10000 10000)
       < transfer_amount (loaded (transfer_of PARTIAL 15000 COMPLETED) (fund 1 1 ACTIVE 10000 10000))
   \<and> handle_transfer_completion 864000
        (loaded (transfer_of PARTIAL 15000 COMPLETED) (fund 1 1 ACTIVE 10000 10000))
        (ledger [fund 1 1 ACTIVE 10000 10000] (transfer_of PARTIAL 15000 COMPLETED))
       = Inr (loaded (transfer_of PARTIAL 15000 COMPLETED) (fund 1 1 ACTIVE 10000 10000),
              ledger [fund 1 1 ACTIVE 10000 10000] (transfer_of PARTIAL 15000 COMPLETED))
   \<and> run_handler 3 864000
        (loaded (transfer_of PARTIAL 15000 COMPLETED) (fund 1 1 ACTIVE 10000 10000))
        (ledger [fund 1 1 ACTIVE 10000 10000] (transfer_of PARTIAL 15000 COMPLETED))
       = Inr (loaded (transfer_of PARTIAL 15000 COMPLETED) (fund 1 1 ACTIVE 10000 10000),
              ledger [fund 1 1 ACTIVE 10000 10000] (transfer_of PARTIAL 15000 COMPLETED))"
  using over_amount_is_noop[of
      "loaded (transfer_of PARTIAL 15000 COMPLETED) (fund 1 1 ACTIVE 10000 10000)"
      "ledger [fund 1 1 ACTIVE 10000 10000] (transfer_of PARTIAL 15000 COMPLETED)"
      "fund 1 1 ACTIVE 10000 10000" 864000 3]
  by (simp add: loaded_def transfer_of_def ledger_def fund_def related_investment_def)

section \<open>Rows after a settlement\<close>

lemma find_Some_id:
  assumes "find (\<lambda>r. inv_id r = k) rows = Some s"
  shows "inv_id s = k \<and> s \<in> set rows"
  using assms by (auto simp: find_Some_iff)

lemma put_investment_present:
  assumes "s \<in> set rows" and "inv_id s = inv_id x"
  shows "put_investment x rows = map (\<lambda>r. if inv_id r = inv_id x then x else r) rows"
  using assms by (auto simp: put_investment_def)

lemma put_investment_ids:
  assumes "s \<in> set rows" and "inv_id s = inv_id x"
  shows "map inv_id (put_investment x rows) = map inv_id rows"
  unfolding put_investment_present[OF assms] by (induction rows) auto



lemma find_append_other:
  assumes "inv_id b \<noteq> j"
  shows "find (\<lambda>r. inv_id r = j) (rows @ [b]) = find (\<lambda>r. inv_id r = j) rows"
  using assms by (simp add: find_append_row split: option.splits)

lemma find_distinct_member:
  assumes "distinct (map inv_id rows)" and "b \<in> set rows"
  shows "find (\<lambda>r. inv_id r = inv_id b) rows = Some b"
  using assms by (induction rows) force+

lemma filter_replace:
  assumes "\<forall>r \<in> set rows. inv_id r = k \<longrightarrow> \<not> P r" and "\<not> P x"
  shows "filter P (map (\<lambda>r. if inv_id r = k then x else r) rows) = filter P rows"
  using assms by (induction rows) auto

lemma filter_put_other:
  assumes di: "distinct (map inv_id rows)"
    and f: "find (\<lambda>r. inv_id r = inv_id x) rows = Some s"
    and ns: "\<not> P s" and nx: "\<not> P x"
  shows "filter P (put_investment x rows) = filter P rows"
proof -
  from find_Some_id[OF f] have sk: "inv_id s = inv_id x" and sm: "s \<in> set rows" by simp_all
  have "\<forall>r \<in> set rows. inv_id r = inv_id x \<longrightarrow> \<not> P r"
  proof (intro ballI impI)
    fix r assume r: "r \<in> set rows" and e: "inv_id r = inv_id x"
    from find_distinct_member[OF di r] f e have "r = s" by simp
    with ns show "\<not> P r" by simp
  qed
  from filter_replace[OF this nx] show ?thesis
    unfolding put_investment_present[OF sm sk] .
qed


text \<open>All investment rows and the two new activity rows after a settlement, in terms of
  the database before it. The seller object the instance holds is the stored row, and
  primary keys are unique.\<close>

lemma settle_rows:
  assumes st: "settle now (i\<lparr>investment_obj := c\<rparr>) buyer s d = Inr (i', d')"
    and gs: "get_investment k d = Some s"
    and di: "distinct (map inv_id (investments d))"
  shows "\<exists>b. b = buyer_row (date_of now) i buyer s d
     \<and> get_investment (inv_id b) d' = Some (stored (buyer_update i b))
     \<and> (inv_id b \<noteq> k \<longrightarrow> get_investment k d' = Some (stored (seller_update i s)))
     \<and> (\<forall>j. j \<noteq> k \<and> j \<noteq> inv_id b \<longrightarrow> get_investment j d' = get_investment j d)
     \<and> capital_activities d' = capital_activities d @
         [(seller_activity (date_of now) i buyer s)\<lparr>amount := quantize2 (transfer_amount i)\<rparr>,
          (buyer_activity (date_of now) i b)
            \<lparr>amount := quantize2 (dec_neg (transfer_amount i))\<rparr>]
     \<and> (inv_user s \<noteq> uid buyer \<longrightarrow>
          inv_id b \<noteq> k \<and> inv_user b = uid buyer \<and> inv_name b = inv_name s
        \<and> (get_investment (inv_id b) d = Some b
           \<or> (get_investment (inv_id b) d = None
              \<and> current_value b = 0 \<and> total_invested b = 0 \<and> inv_status b = ACTIVE)))"
proof -
  let ?P = "\<lambda>r. inv_user r = uid buyer \<and> inv_name r = inv_name s"
  let ?s2 = "stored (seller_update i s)"
  let ?rows = "investments d"
  let ?rows1 = "put_investment ?s2 ?rows"
  let ?today = "date_of now"
  from gs have sk: "inv_id s = k" and sm: "s \<in> set ?rows"
    using find_Some_id unfolding get_investment_def by blast+
  have id2: "inv_id ?s2 = k" by (simp add: stored_fields seller_update_fields sk)
  have u2: "inv_user ?s2 = inv_user s" "inv_name ?s2 = inv_name s"
    by (simp_all add: stored_fields seller_update_fields)
  have sid: "inv_id s = inv_id ?s2" using sk id2 by simp
  have f1: "find (\<lambda>r. inv_id r = k) ?rows1 = Some ?s2"
    by (simp add: find_put_investment id2)
  have fo: "\<And>j. j \<noteq> k \<Longrightarrow> find (\<lambda>r. inv_id r = j) ?rows1 = find (\<lambda>r. inv_id r = j) ?rows"
    using id2 by (simp add: find_put_investment)
  have ids1: "map inv_id ?rows1 = map inv_id ?rows"
    by (rule put_investment_ids[OF sm sid])
  have fk: "find (\<lambda>r. inv_id r = inv_id ?s2) ?rows = Some s"
    using gs unfolding get_investment_def id2 .
  from settle_Inr[OF st] obtain b rows3 where
    alt: "(filter ?P ?rows1 = [b] \<and> rows3 = ?rows1)
          \<or> (filter ?P ?rows1 = []
             \<and> b = new_investment ?today (uid buyer) (inv_name s) (seller_update i s) ?rows1
             \<and> rows3 = ?rows1 @ [b])"
    and inv': "investments d' = put_investment (stored (buyer_update i b)) rows3"
    and ca: "capital_activities d' = capital_activities d @
         [(seller_activity ?today i buyer s)\<lparr>amount := quantize2 (transfer_amount i)\<rparr>,
          (buyer_activity ?today i b)\<lparr>amount := quantize2 (dec_neg (transfer_amount i))\<rparr>]"
    by blast
  have idb: "inv_id (stored (buyer_update i b)) = inv_id b"
    by (simp add: stored_fields buyer_update_fields)
  have gb: "get_investment (inv_id b) d' = Some (stored (buyer_update i b))"
    unfolding get_investment_def inv' find_put_investment by (simp add: idb)
  have core: "b = buyer_row ?today i buyer s d
      \<and> (\<forall>j. j \<noteq> inv_id b \<longrightarrow> find (\<lambda>r. inv_id r = j) rows3 = find (\<lambda>r. inv_id r = j) ?rows1)
      \<and> (inv_user s \<noteq> uid buyer \<longrightarrow>
          inv_id b \<noteq> k \<and> inv_user b = uid buyer \<and> inv_name b = inv_name s
        \<and> (get_investment (inv_id b) d = Some b
           \<or> (get_investment (inv_id b) d = None
              \<and> current_value b = 0 \<and> total_invested b = 0 \<and> inv_status b = ACTIVE)))"
  proof (cases "inv_user s = uid buyer")
    case True
    then have P2: "?P ?s2" by (simp add: u2)
    from f1 have "?s2 \<in> set ?rows1" using find_Some_id by blast
    with P2 have m: "?s2 \<in> set (filter ?P ?rows1)" by simp
    have "filter ?P ?rows1 \<noteq> []"
    proof
      assume "filter ?P ?rows1 = []"
      with m show False by (simp only: list.set empty_iff)
    qed
    with alt have a: "filter ?P ?rows1 = [b]" "rows3 = ?rows1" by auto
    from m a(1) have "b = ?s2" by simp
    with True a(2) show ?thesis by (simp add: buyer_row_def)
  next
    case False
    then have nP: "\<not> ?P s" "\<not> ?P ?s2" by (simp_all add: u2)
    have fe: "filter ?P ?rows1 = filter ?P ?rows"
      using di fk nP by (rule filter_put_other)
    from alt show ?thesis
    proof
      assume a: "filter ?P ?rows1 = [b] \<and> rows3 = ?rows1"
      then have fb: "filter ?P ?rows = [b]" using fe by simp
      then have "b \<in> set (filter ?P ?rows)" by simp
      then have bm: "b \<in> set ?rows" and bu: "inv_user b = uid buyer"
        and bn: "inv_name b = inv_name s" by simp_all
      from find_distinct_member[OF di bm] have g: "get_investment (inv_id b) d = Some b"
        by (simp add: get_investment_def)
      have bk: "inv_id b \<noteq> k"
      proof
        assume "inv_id b = k"
        with g gs have "b = s" by simp
        with bu False show False by simp
      qed
      have "b = buyer_row ?today i buyer s d" using False fb by (simp add: buyer_row_def)
      with a bk bu bn g show ?thesis by simp
    next
      assume a: "filter ?P ?rows1 = []
             \<and> b = new_investment ?today (uid buyer) (inv_name s) (seller_update i s) ?rows1
             \<and> rows3 = ?rows1 @ [b]"
      then have fb: "filter ?P ?rows = []" using fe by simp
      from a have bn: "b = new_investment ?today (uid buyer) (inv_name s) s ?rows"
        by (simp add: new_investment_def ids1 seller_update_fields)
      then have bid: "inv_id b = fresh_id (map inv_id ?rows)"
        and bf: "inv_user b = uid buyer" "inv_name b = inv_name s" "current_value b = 0"
                "total_invested b = 0" "inv_status b = ACTIVE"
        by (simp_all add: new_investment_def)
      have nin: "inv_id b \<notin> set (map inv_id ?rows)"
        using fresh_id_notin[of "map inv_id ?rows"] unfolding bid .
      have "k \<in> set (map inv_id ?rows)" using sm sk by force
      with nin have bk: "inv_id b \<noteq> k" by auto
      from nin have "\<forall>r \<in> set ?rows. inv_id r \<noteq> inv_id b" by (auto simp: image_iff)
      then have g: "get_investment (inv_id b) d = None"
        unfolding get_investment_def by (simp add: find_None_ids)
      have br: "b = buyer_row ?today i buyer s d" using False fb bn by (simp add: buyer_row_def)
      have "\<forall>j. j \<noteq> inv_id b \<longrightarrow>
              find (\<lambda>r. inv_id r = j) rows3 = find (\<lambda>r. inv_id r = j) ?rows1"
        using a by (simp add: find_append_other)
      with br bk bf g show ?thesis by simp
    qed
  qed
  have gk: "inv_id b \<noteq> k \<longrightarrow> get_investment k d' = Some ?s2"
    unfolding get_investment_def inv' find_put_investment idb using core f1 by auto
  have go: "\<forall>j. j \<noteq> k \<and> j \<noteq> inv_id b \<longrightarrow> get_investment j d' = get_investment j d"
    unfolding get_investment_def inv' find_put_investment idb using core fo by auto
  from core gb gk go ca show ?thesis by blast
qed


section \<open>Full-exit rule\<close>


section \<open>Money amounts and worked examples\<close>

lemma is_money_cents:
  assumes "is_money x"
  shows "\<exists>c. x * 100 = of_int c \<and> \<bar>c\<bar> < 10 ^ 15"
proof -
  define c where "c = round_half_even (x * 100)"
  from assms have c: "x * 100 = of_int c" and b: "\<bar>x\<bar> < 10 ^ 13"
    by (simp_all add: is_money_def c_def)
  have "(of_int \<bar>c\<bar> :: rat) = \<bar>x\<bar> * 100" using c by (simp add: abs_mult flip: of_int_abs)
  also have "\<dots> < 10 ^ 13 * 100" using b by simp
  also have "\<dots> = of_int (10 ^ 15)" by simp
  finally have "\<bar>c\<bar> < 10 ^ 15" by (simp only: of_int_less_iff)
  with c show ?thesis by blast
qed

lemma quantize2_cents:
  assumes "x * 100 = of_int c"
  shows "quantize2 x = x"
proof -
  have "quantize2 x = of_int c / 100"
    unfolding quantize2_def assms round_half_even_of_int ..
  also have "\<dots> = x" using assms by simp
  finally show ?thesis .
qed

lemma money_add:
  assumes "is_money x" and "is_money y"
  shows "dec_add x y = x + y" and "quantize2 (dec_add x y) = x + y"
proof -
  from is_money_cents[OF assms(1)] obtain a where a: "x * 100 = of_int a" "\<bar>a\<bar> < 10 ^ 15" by blast
  from is_money_cents[OF assms(2)] obtain b where b: "y * 100 = of_int b" "\<bar>b\<bar> < 10 ^ 15" by blast
  have s: "(x + y) * 100 = of_int (a + b)" using a(1) b(1) by (simp add: algebra_simps)
  then have "(x + y) * 10 ^ 2 = of_int (a + b)" by simp
  moreover have "\<bar>a + b\<bar> < 10 ^ 28" using a(2) b(2) by simp
  ultimately have "ctx_round (x + y) = x + y" by (rule ctx_round_exact)
  then show e: "dec_add x y = x + y" by (simp add: dec_add_def)
  show "quantize2 (dec_add x y) = x + y" unfolding e using s by (rule quantize2_cents)
qed

lemma money_sub:
  assumes "is_money x" and "is_money y"
  shows "dec_sub x y = x - y" and "quantize2 (dec_sub x y) = x - y"
proof -
  from is_money_cents[OF assms(1)] obtain a where a: "x * 100 = of_int a" "\<bar>a\<bar> < 10 ^ 15" by blast
  from is_money_cents[OF assms(2)] obtain b where b: "y * 100 = of_int b" "\<bar>b\<bar> < 10 ^ 15" by blast
  have s: "(x - y) * 100 = of_int (a - b)" using a(1) b(1) by (simp add: algebra_simps)
  then have "(x - y) * 10 ^ 2 = of_int (a - b)" by simp
  moreover have "\<bar>a - b\<bar> < 10 ^ 28" using a(2) b(2) by simp
  ultimately have "ctx_round (x - y) = x - y" by (rule ctx_round_exact)
  then show e: "dec_sub x y = x - y" by (simp add: dec_sub_def)
  show "quantize2 (dec_sub x y) = x - y" unfolding e using s by (rule quantize2_cents)
qed

lemma money_gap:
  assumes "is_money x" and "is_money y" and "\<not> x < y" and "x - y < 1 / 100"
  shows "x = y"
proof -
  from is_money_cents[OF assms(1)] obtain a where a: "x * 100 = of_int a" by blast
  from is_money_cents[OF assms(2)] obtain b where b: "y * 100 = of_int b" by blast
  have "y * 100 \<le> x * 100" using assms(3) by simp
  then have "(of_int b :: rat) \<le> of_int a" unfolding a b .
  then have le: "b \<le> a" by (simp only: of_int_le_iff)
  have "x * 100 - y * 100 < 1" using assms(4) by (simp add: field_simps)
  then have "(of_int (a - b) :: rat) < of_int 1" unfolding a b by simp
  then have "a - b < 1" by (simp only: of_int_less_iff)
  with le have "a = b" by simp
  with a b have "x * 100 = y * 100" by simp
  then show ?thesis by simp
qed

lemma is_money_zero: "is_money 0"
  by (simp add: is_money_def round_half_even_def)

lemma arith_examples:
  "dec_div 10000 50000 = 1 / 5"
  "dec_mul 50000 (1 / 5) = 10000"
  "dec_sub 50000 10000 = 40000"
  "dec_add 0 10000 = 10000"
  "dec_neg 10000 = - 10000"
  "dec_mul 10000 (1 / 40) = 250"
  "dec_sub 10000 250 = 9750"
  "to_db 0 = Inr 0"
  "to_db 10000 = Inr 10000"
  "to_db 40000 = Inr 40000"
  "to_db (- 10000) = Inr (- 10000)"
  "str_nat 7 = ''7''"
  "date_of 864000 = 10"
  "is_money 10000"
  "is_money 50000"
  "dec_div 50000 50000 = 1"
  "dec_mul 50000 1 = 50000"
  "dec_sub 50000 50000 = 0"
  "dec_add 0 50000 = 50000"
  "dec_neg 50000 = - 50000"
  "dec_mul 50000 (1 / 40) = 1250"
  "dec_sub 50000 1250 = 48750"
  "to_db 50000 = Inr 50000"
  "to_db (- 50000) = Inr (- 50000)"
  by code_simp+

lemmas model_defs =
  handle_transfer_completion_def settle_def get_investment_def related_investment_def
  in_memory_def loaded_def
  transfer_of_def ledger_def fund_def alice_def bob_def seller_update_def buyer_update_def
  seller_activity_def buyer_activity_def Investment_save_def CapitalActivity_create_def
  get_or_create_def new_investment_def create_performance_snapshot_def
  save_update_fields_def pre_save_def log_activity_def put_investment_def
  bind_result_def Let_def fresh_id_def

lemma eval_full:
  "handle_transfer_completion 864000 (transfer_of FULL 10000 COMPLETED)
       (ledger [fund 1 1 ACTIVE 50000 50000] (transfer_of FULL 10000 COMPLETED)) =
   Inr ((transfer_of FULL 10000 COMPLETED)
          \<lparr>transfer_fee := 250, net_amount := 9750, is_processed := True,
           completion_date := Some 864000, investment_obj := Some (fund 1 1 EXITED 0 0)\<rparr>,
        \<lparr>investments = [fund 1 1 EXITED 0 0, (fund 2 2 ACTIVE 10000 10000)\<lparr>investment_date := 10\<rparr>],
         capital_activities =
           [\<lparr>ca_investment = 1, ca_type = DISTRIBUTION, amount = 10000, ca_date = 10,
              details = ''Ownership transfer to bob@example.com (Transfer #7)''\<rparr>,
            \<lparr>ca_investment = 2, ca_type = INITIAL_INVESTMENT, amount = - 10000, ca_date = 10,
              details = ''Ownership transfer from alice@example.com (Transfer #7)''\<rparr>],
         performance_snapshots = [\<lparr>ps_investment = 2, ps_date = 10, ps_value = 10000\<rparr>],
         transfers = [(transfer_of FULL 10000 COMPLETED)
                        \<lparr>is_processed := True, completion_date := Some 864000\<rparr>],
         user_activities =
           [\<lparr>ua_user = 1, ua_type = ''PORTFOLIO_UPDATE'', ua_amount = 10000,
              ua_transfer = 7, ua_role = ''seller''\<rparr>,
            \<lparr>ua_user = 2, ua_type = ''PORTFOLIO_UPDATE'', ua_amount = 10000,
              ua_transfer = 7, ua_role = ''buyer''\<rparr>]\<rparr>)"
  by (simp add: model_defs arith_examples)

lemma eval_partial:
  "handle_transfer_completion 864000 (transfer_of PARTIAL 10000 COMPLETED)
       (ledger [fund 1 1 ACTIVE 50000 50000] (transfer_of PARTIAL 10000 COMPLETED)) =
   Inr ((transfer_of PARTIAL 10000 COMPLETED)
          \<lparr>transfer_fee := 250, net_amount := 9750, is_processed := True,
           completion_date := Some 864000,
           investment_obj := Some (fund 1 1 ACTIVE 40000 40000)\<rparr>,
        \<lparr>investments = [fund 1 1 ACTIVE 40000 40000,
                        (fund 2 2 ACTIVE 10000 10000)\<lparr>investment_date := 10\<rparr>],
         capital_activities =
           [\<lparr>ca_investment = 1, ca_type = PARTIAL_EXIT, amount = 10000, ca_date = 10,
              details = ''Ownership transfer to bob@example.com (Transfer #7)''\<rparr>,
            \<lparr>ca_investment = 2, ca_type = INITIAL_INVESTMENT, amount = - 10000, ca_date = 10,
              details = ''Ownership transfer from alice@example.com (Transfer #7)''\<rparr>],
         performance_snapshots = [\<lparr>ps_investment = 1, ps_date = 10, ps_value = 40000\<rparr>,
                                  \<lparr>ps_investment = 2, ps_date = 10, ps_value = 10000\<rparr>],
         transfers = [(transfer_of PARTIAL 10000 COMPLETED)
                        \<lparr>is_processed := True, completion_date := Some 864000\<rparr>],
         user_activities =
           [\<lparr>ua_user = 1, ua_type = ''PORTFOLIO_UPDATE'', ua_amount = 10000,
              ua_transfer = 7, ua_role = ''seller''\<rparr>,
            \<lparr>ua_user = 2, ua_type = ''PORTFOLIO_UPDATE'', ua_amount = 10000,
              ua_transfer = 7, ua_role = ''buyer''\<rparr>]\<rparr>)"
  by (simp add: model_defs arith_examples)

lemma eval_exited_buyer:
  "handle_transfer_completion 864000 (transfer_of PARTIAL 10000 COMPLETED)
       (ledger [fund 1 1 ACTIVE 50000 50000, fund 2 2 EXITED 0 0]
          (transfer_of PARTIAL 10000 COMPLETED)) =
   Inr ((transfer_of PARTIAL 10000 COMPLETED)
          \<lparr>transfer_fee := 250, net_amount := 9750, is_processed := True,
           completion_date := Some 864000,
           investment_obj := Some (fund 1 1 ACTIVE 40000 40000)\<rparr>,
        \<lparr>investments = [fund 1 1 ACTIVE 40000 40000, fund 2 2 EXITED 10000 10000],
         capital_activities =
           [\<lparr>ca_investment = 1, ca_type = PARTIAL_EXIT, amount = 10000, ca_date = 10,
              details = ''Ownership transfer to bob@example.com (Transfer #7)''\<rparr>,
            \<lparr>ca_investment = 2, ca_type = INITIAL_INVESTMENT, amount = - 10000, ca_date = 10,
              details = ''Ownership transfer from alice@example.com (Transfer #7)''\<rparr>],
         performance_snapshots = [\<lparr>ps_investment = 1, ps_date = 10, ps_value = 40000\<rparr>,
                                  \<lparr>ps_investment = 2, ps_date = 10, ps_value = 10000\<rparr>],
         transfers = [(transfer_of PARTIAL 10000 COMPLETED)
                        \<lparr>is_processed := True, completion_date := Some 864000\<rparr>],
         user_activities =
           [\<lparr>ua_user = 1, ua_type = ''PORTFOLIO_UPDATE'', ua_amount = 10000,
              ua_transfer = 7, ua_role = ''seller''\<rparr>,
            \<lparr>ua_user = 2, ua_type = ''PORTFOLIO_UPDATE'', ua_amount = 10000,
              ua_transfer = 7, ua_role = ''buyer''\<rparr>]\<rparr>)"
  by (simp add: model_defs arith_examples)




lemma seller_update_partial:
  assumes "is_money (current_value s)" and "is_money (transfer_amount i)"
    and "\<not> current_value s < transfer_amount i" and "transfer_type i = PARTIAL"
  shows "quantize2 (current_value (seller_update i s)) = current_value s - transfer_amount i"
proof (cases "current_value s - transfer_amount i < 1 / 100")
  case True
  from money_gap[OF assms(1,2,3) True] have "current_value s = transfer_amount i" .
  then show ?thesis
    using True assms(4) money_sub(1)[OF assms(1,2)]
    by (simp add: seller_update_def Let_def quantize2_zero)
next
  case False
  then show ?thesis
    using assms(4) money_sub[OF assms(1,2)]
    by (simp add: seller_update_def Let_def)
qed

lemma seller_update_full:
  assumes "transfer_type i = FULL"
  shows "quantize2 (current_value (seller_update i s)) = 0"
  using assms by (simp add: seller_update_def Let_def quantize2_zero)

section \<open>Conservation of value\<close>

text \<open>
  Claim C2, as amended. Take a settlement that commits (the receiver returns, and the
  table records the transfer as processed afterwards and did not before), with a recipient
  other than the owner of the seller's investment, a transfer amount and stored current
  values that are amounts of two decimals, a table with unique primary keys, and an
  instance whose investment object \<open>s\<close> is the stored row. Then the buyer's investment of
  that name (the row \<open>k\<close>: the one the buyer held before, or a new one that starts at 0)
  gains exactly the transfer amount. The seller's investment loses exactly the transfer
  amount when the transfer is \<^verbatim>\<open>PARTIAL\<close>; when it is \<^verbatim>\<open>FULL\<close> the seller's current
  value becomes 0, so the seller loses the whole value, which is the transfer amount only
  when the two are equal.
\<close>

theorem settlement_conservation:
  assumes h: "handle_transfer_completion now i d = Inr (i', d')"
    and np: "\<not> recorded_processed (tr_id i) d" and p: "recorded_processed (tr_id i) d'"
    and tu: "to_user i = Some buyer"
    and rs: "related_investment i d = Inr s"
    and gs: "get_investment (tr_investment i) d = Some s"
    and ne: "uid buyer \<noteq> inv_user s"
    and mA: "is_money (transfer_amount i)"
    and mr: "\<forall>r \<in> set (investments d). is_money (current_value r)"
    and di: "distinct (map inv_id (investments d))"
  shows "\<exists>s' k b'.
      get_investment (tr_investment i) d' = Some s'
    \<and> (transfer_type i = PARTIAL \<longrightarrow> current_value s - current_value s' = transfer_amount i)
    \<and> (transfer_type i = FULL \<longrightarrow> current_value s' = 0)
    \<and> get_investment k d' = Some b' \<and> inv_user b' = uid buyer \<and> inv_name b' = inv_name s
    \<and> (\<forall>b. get_investment k d = Some b \<longrightarrow> inv_user b = uid buyer \<and> inv_name b = inv_name s)
    \<and> current_value b' - (case get_investment k d of None \<Rightarrow> 0 | Some b \<Rightarrow> current_value b)
        = transfer_amount i"
proof -
  from handler_committed[OF h np p] tu rs
  have st: "settle now (i\<lparr>investment_obj := Some s\<rparr>) buyer s d = Inr (i', d')"
    and ge: "\<not> current_value s < transfer_amount i" by auto
  from gs have sm: "s \<in> set (investments d)"
    using find_Some_id unfolding get_investment_def by blast
  with mr have ms: "is_money (current_value s)" by blast
  from ne have ne': "inv_user s \<noteq> uid buyer" by simp
  from settle_rows[OF st gs di] ne' obtain b where
    g2: "get_investment (inv_id b) d' = Some (stored (buyer_update i b))"
    and g1: "get_investment (tr_investment i) d' = Some (stored (seller_update i s))"
    and bu: "inv_user b = uid buyer" and bn: "inv_name b = inv_name s"
    and alt: "get_investment (inv_id b) d = Some b
           \<or> (get_investment (inv_id b) d = None
              \<and> current_value b = 0 \<and> total_invested b = 0 \<and> inv_status b = ACTIVE)"
    by blast
  have S1: "transfer_type i = PARTIAL \<longrightarrow>
      current_value s - current_value (stored (seller_update i s)) = transfer_amount i"
    using seller_update_partial[OF ms mA ge] by (simp add: stored_fields)
  have S2: "transfer_type i = FULL \<longrightarrow> current_value (stored (seller_update i s)) = 0"
    using seller_update_full by (simp add: stored_fields)
  have B1: "inv_user (stored (buyer_update i b)) = uid buyer"
    "inv_name (stored (buyer_update i b)) = inv_name s"
    using bu bn by (simp_all add: stored_fields buyer_update_fields)
  have B2: "(\<forall>b0. get_investment (inv_id b) d = Some b0 \<longrightarrow>
                inv_user b0 = uid buyer \<and> inv_name b0 = inv_name s)
          \<and> current_value (stored (buyer_update i b))
              - (case get_investment (inv_id b) d of None \<Rightarrow> 0 | Some b0 \<Rightarrow> current_value b0)
             = transfer_amount i"
    using alt
  proof
    assume gb: "get_investment (inv_id b) d = Some b"
    then have "b \<in> set (investments d)"
      using find_Some_id unfolding get_investment_def by blast
    with mr have "is_money (current_value b)" by blast
    from money_add(2)[OF this mA]
    have "current_value (stored (buyer_update i b)) = current_value b + transfer_amount i"
      by (simp add: stored_fields buyer_update_def)
    with gb bu bn show ?thesis by simp
  next
    assume a: "get_investment (inv_id b) d = None
              \<and> current_value b = 0 \<and> total_invested b = 0 \<and> inv_status b = ACTIVE"
    with money_add(2)[OF is_money_zero mA]
    have "current_value (stored (buyer_update i b)) = transfer_amount i"
      by (simp add: stored_fields buyer_update_def)
    with a show ?thesis by simp
  qed
  from g1 g2 S1 S2 B1 B2 show ?thesis by blast
qed

theorem settlement_conservation_witness:
  "\<exists>i' d'.
     handle_transfer_completion 864000 (transfer_of PARTIAL 10000 COMPLETED)
       (ledger [fund 1 1 ACTIVE 50000 50000] (transfer_of PARTIAL 10000 COMPLETED)) = Inr (i', d')
     \<and> \<not> recorded_processed (tr_id (transfer_of PARTIAL 10000 COMPLETED))
           (ledger [fund 1 1 ACTIVE 50000 50000] (transfer_of PARTIAL 10000 COMPLETED))
     \<and> recorded_processed (tr_id (transfer_of PARTIAL 10000 COMPLETED)) d'
     \<and> to_user (transfer_of PARTIAL 10000 COMPLETED) = Some bob
     \<and> related_investment (transfer_of PARTIAL 10000 COMPLETED)
          (ledger [fund 1 1 ACTIVE 50000 50000] (transfer_of PARTIAL 10000 COMPLETED))
         = Inr (fund 1 1 ACTIVE 50000 50000)
     \<and> get_investment (tr_investment (transfer_of PARTIAL 10000 COMPLETED))
          (ledger [fund 1 1 ACTIVE 50000 50000] (transfer_of PARTIAL 10000 COMPLETED))
         = Some (fund 1 1 ACTIVE 50000 50000)
     \<and> uid bob \<noteq> inv_user (fund 1 1 ACTIVE 50000 50000)
     \<and> is_money (transfer_amount (transfer_of PARTIAL 10000 COMPLETED))
     \<and> is_money (current_value (fund 1 1 ACTIVE 50000 50000))
     \<and> investments (ledger [fund 1 1 ACTIVE 50000 50000] (transfer_of PARTIAL 10000 COMPLETED))
         = [fund 1 1 ACTIVE 50000 50000]
     \<and> distinct (map inv_id (investments (ledger [fund 1 1 ACTIVE 50000 50000]
                       (transfer_of PARTIAL 10000 COMPLETED))))
     \<and> (\<exists>s' k b'.
          get_investment (tr_investment (transfer_of PARTIAL 10000 COMPLETED)) d' = Some s'
        \<and> current_value (fund 1 1 ACTIVE 50000 50000) - current_value s' = 10000
        \<and> get_investment k d' = Some b' \<and> inv_user b' = uid bob
        \<and> current_value b'
            - (case get_investment k (ledger [fund 1 1 ACTIVE 50000 50000]
                   (transfer_of PARTIAL 10000 COMPLETED)) of None \<Rightarrow> 0 | Some b \<Rightarrow> current_value b)
           = 10000)"
proof -
  let ?T = "transfer_of PARTIAL 10000 COMPLETED"
  let ?D = "ledger [fund 1 1 ACTIVE 50000 50000] ?T"
  obtain i' d' where e: "handle_transfer_completion 864000 ?T ?D = Inr (i', d')"
    and p: "recorded_processed (tr_id ?T) d'"
    using eval_partial by (simp add: recorded_processed_def get_transfer_def transfer_of_def)
  have h1: "\<not> recorded_processed (tr_id ?T) ?D"
    by (simp add: recorded_processed_def get_transfer_def transfer_of_def ledger_def)
  have h2: "to_user ?T = Some bob" by (simp add: transfer_of_def)
  have h3: "get_investment (tr_investment ?T) ?D = Some (fund 1 1 ACTIVE 50000 50000)"
    by (simp add: transfer_of_def ledger_def fund_def get_investment_def)
  have h3': "related_investment ?T ?D = Inr (fund 1 1 ACTIVE 50000 50000)"
    by (simp add: related_investment_def transfer_of_def ledger_def fund_def get_investment_def)
  have h4: "uid bob \<noteq> inv_user (fund 1 1 ACTIVE 50000 50000)" by (simp add: bob_def fund_def)
  have h5: "is_money (transfer_amount ?T)" by (simp add: transfer_of_def arith_examples)
  have h6: "\<forall>r \<in> set (investments ?D). is_money (current_value r)"
    by (simp add: ledger_def fund_def arith_examples)
  have h7: "distinct (map inv_id (investments ?D))" by (simp add: ledger_def)
  have h8: "investments ?D = [fund 1 1 ACTIVE 50000 50000]" by (simp add: ledger_def)
  have ty: "transfer_type ?T = PARTIAL" "transfer_amount ?T = 10000" by (simp_all add: transfer_of_def)
  from settlement_conservation[OF e h1 p h2 h3' h3 h4 h5 h6 h7] ty
  have "\<exists>s' k b'.
          get_investment (tr_investment ?T) d' = Some s'
        \<and> current_value (fund 1 1 ACTIVE 50000 50000) - current_value s' = 10000
        \<and> get_investment k d' = Some b' \<and> inv_user b' = uid bob
        \<and> current_value b' - (case get_investment k ?D of None \<Rightarrow> 0 | Some b \<Rightarrow> current_value b)
           = 10000"
    by auto
  moreover have "is_money (current_value (fund 1 1 ACTIVE 50000 50000))"
    by (simp add: fund_def arith_examples)
  ultimately show ?thesis using e h1 p h2 h3 h3' h4 h5 h7 h8 by blast
qed

text \<open>
  The claim as stated fails for a \<^verbatim>\<open>FULL\<close> transfer of 10000 out of an investment worth
  50000 to another user: the settlement commits and the seller's current value drops from
  50000 to 0, not by the transfer amount.
\<close>

theorem settlement_conservation_counterexample:
  "\<not> recorded_processed 7
       (ledger [fund 1 1 ACTIVE 50000 50000] (transfer_of FULL 10000 COMPLETED))
   \<and> recorded_processed 7
       (snd (projr (handle_transfer_completion 864000 (transfer_of FULL 10000 COMPLETED)
          (ledger [fund 1 1 ACTIVE 50000 50000] (transfer_of FULL 10000 COMPLETED)))))
   \<and> map_option current_value
       (get_investment 1 (ledger [fund 1 1 ACTIVE 50000 50000] (transfer_of FULL 10000 COMPLETED)))
       = Some 50000
   \<and> map_option current_value
       (get_investment 1 (snd (projr (handle_transfer_completion 864000
          (transfer_of FULL 10000 COMPLETED)
          (ledger [fund 1 1 ACTIVE 50000 50000] (transfer_of FULL 10000 COMPLETED))))))
       = Some 0
   \<and> (50000 :: rat) - 0 \<noteq> transfer_amount (transfer_of FULL 10000 COMPLETED)"
  unfolding eval_full
  by (simp add: get_investment_def recorded_processed_def get_transfer_def fund_def
        transfer_of_def ledger_def)

section \<open>Idempotent settlement\<close>

text \<open>
  Claim C1, as amended. Take a run of the receiver that settles the transfer: it returns,
  and the table records the transfer as processed afterwards and did not before. (This is
  the case of a transfer that is \<^verbatim>\<open>COMPLETED\<close> and not yet processed, with a registered
  recipient, an amount that does not exceed the seller's current value, and an atomic
  block that raises nothing.) The instance holds, or loads, the stored row \<open>s\<close> of the
  seller's investment, and primary keys are unique. Then running the receiver \<open>n \<ge> 1\<close>
  times in sequence leaves the instance and the database that one run leaves, and a
  further run changes nothing. In that state the instance is processed; there are exactly
  two new capital activity rows, the seller's on the seller's investment with the transfer
  amount and the buyer's \<^verbatim>\<open>INITIAL_INVESTMENT\<close> on the buyer's investment with its
  negation; the buyer's investment \<open>b\<close>, which is the row the recipient held before the
  settlement or a new row with balances 0, holds the result of one credit applied to that
  row; the seller's row holds the result of one debit; and every other investment row is
  the one before. When the recipient is the owner of the seller's investment, \<open>b\<close> is the
  seller's row after its debit, and the one row holds the debit followed by the credit.
\<close>

theorem settlement_idempotent:
  assumes "0 < n"
    and h: "handle_transfer_completion now i d = Inr (i', d')"
    and np: "\<not> recorded_processed (tr_id i) d" and p: "recorded_processed (tr_id i) d'"
    and tu: "to_user i = Some buyer"
    and rs: "related_investment i d = Inr s"
    and gs: "get_investment (tr_investment i) d = Some s"
    and di: "distinct (map inv_id (investments d))"
  shows "run_handler n now i d = Inr (i', d')
       \<and> handle_transfer_completion now i' d' = Inr (i', d')
       \<and> is_processed i' \<and> tr_status i' = COMPLETED
       \<and> (let b = buyer_row (date_of now) i buyer s d;
               sa = (seller_activity (date_of now) i buyer s)
                      \<lparr>amount := quantize2 (transfer_amount i)\<rparr>;
               ba = (buyer_activity (date_of now) i b)
                      \<lparr>amount := quantize2 (dec_neg (transfer_amount i))\<rparr>
          in capital_activities d' = capital_activities d @ [sa, ba]
           \<and> ca_investment sa = tr_investment i \<and> ca_investment ba = inv_id b
           \<and> ca_type ba = INITIAL_INVESTMENT
           \<and> get_investment (inv_id b) d' = Some (stored (buyer_update i b))
           \<and> (inv_id b \<noteq> tr_investment i \<longrightarrow>
                get_investment (tr_investment i) d' = Some (stored (seller_update i s)))
           \<and> (\<forall>j. j \<noteq> tr_investment i \<and> j \<noteq> inv_id b \<longrightarrow>
                get_investment j d' = get_investment j d))"
proof -
  from handler_committed[OF h np p] tu rs
  have st: "settle now (i\<lparr>investment_obj := Some s\<rparr>) buyer s d = Inr (i', d')"
    and co: "tr_status i = COMPLETED" by auto
  note pr = settle_is_processed[OF st]
  have I: "handle_transfer_completion now i' d' = Inr (i', d')"
    using pr(1) by (rule handler_processed)
  from assms(1) obtain m where n: "n = Suc m" by (cases n) auto
  have R: "run_handler n now i d = Inr (i', d')"
    unfolding n using h I by (rule run_handler_step)
  from gs have sk: "inv_id s = tr_investment i"
    using find_Some_id unfolding get_investment_def by blast
  from settle_rows[OF st gs di]
  have rows: "capital_activities d' = capital_activities d @
         [(seller_activity (date_of now) i buyer s)\<lparr>amount := quantize2 (transfer_amount i)\<rparr>,
          (buyer_activity (date_of now) i (buyer_row (date_of now) i buyer s d))
            \<lparr>amount := quantize2 (dec_neg (transfer_amount i))\<rparr>]"
    and gb: "get_investment (inv_id (buyer_row (date_of now) i buyer s d)) d'
               = Some (stored (buyer_update i (buyer_row (date_of now) i buyer s d)))"
    and gk: "inv_id (buyer_row (date_of now) i buyer s d) \<noteq> tr_investment i \<longrightarrow>
               get_investment (tr_investment i) d' = Some (stored (seller_update i s))"
    and go: "\<forall>j. j \<noteq> tr_investment i \<and> j \<noteq> inv_id (buyer_row (date_of now) i buyer s d) \<longrightarrow>
               get_investment j d' = get_investment j d"
    by blast+
  have A: "ca_investment ((seller_activity (date_of now) i buyer s)
              \<lparr>amount := quantize2 (transfer_amount i)\<rparr>) = tr_investment i"
    by (simp add: seller_activity_def sk)
  have B: "ca_investment ((buyer_activity (date_of now) i (buyer_row (date_of now) i buyer s d))
              \<lparr>amount := quantize2 (dec_neg (transfer_amount i))\<rparr>)
            = inv_id (buyer_row (date_of now) i buyer s d)"
      "ca_type ((buyer_activity (date_of now) i (buyer_row (date_of now) i buyer s d))
              \<lparr>amount := quantize2 (dec_neg (transfer_amount i))\<rparr>) = INITIAL_INVESTMENT"
    by (simp_all add: buyer_activity_def)
  from R I pr co rows gb gk go A B show ?thesis
    unfolding Let_def by simp
qed

lemma arith_rows:
  "quantize2 10000 = 10000"
  "quantize2 40000 = 40000"
  "quantize2 (- 10000) = - 10000"
  "quantize2 0 = 0"
  by code_simp+

theorem settlement_idempotent_witness:
  "\<exists>i' d'.
     (0::nat) < 3
     \<and> handle_transfer_completion 864000 (transfer_of PARTIAL 10000 COMPLETED)
         (ledger [fund 1 1 ACTIVE 50000 50000] (transfer_of PARTIAL 10000 COMPLETED)) = Inr (i', d')
     \<and> \<not> recorded_processed (tr_id (transfer_of PARTIAL 10000 COMPLETED))
           (ledger [fund 1 1 ACTIVE 50000 50000] (transfer_of PARTIAL 10000 COMPLETED))
     \<and> recorded_processed (tr_id (transfer_of PARTIAL 10000 COMPLETED)) d'
     \<and> to_user (transfer_of PARTIAL 10000 COMPLETED) = Some bob
     \<and> related_investment (transfer_of PARTIAL 10000 COMPLETED)
          (ledger [fund 1 1 ACTIVE 50000 50000] (transfer_of PARTIAL 10000 COMPLETED))
         = Inr (fund 1 1 ACTIVE 50000 50000)
     \<and> get_investment (tr_investment (transfer_of PARTIAL 10000 COMPLETED))
          (ledger [fund 1 1 ACTIVE 50000 50000] (transfer_of PARTIAL 10000 COMPLETED))
         = Some (fund 1 1 ACTIVE 50000 50000)
     \<and> distinct (map inv_id (investments
          (ledger [fund 1 1 ACTIVE 50000 50000] (transfer_of PARTIAL 10000 COMPLETED))))
     \<and> run_handler 3 864000 (transfer_of PARTIAL 10000 COMPLETED)
         (ledger [fund 1 1 ACTIVE 50000 50000] (transfer_of PARTIAL 10000 COMPLETED)) = Inr (i', d')
     \<and> handle_transfer_completion 864000 i' d' = Inr (i', d')
     \<and> is_processed i'
     \<and> map ca_investment (capital_activities d') = [1, 2]
     \<and> map ca_type (capital_activities d') = [PARTIAL_EXIT, INITIAL_INVESTMENT]
     \<and> map amount (capital_activities d') = [10000, - 10000]
     \<and> get_investment 1 d' = Some (fund 1 1 ACTIVE 40000 40000)
     \<and> get_investment 2 d' = Some ((fund 2 2 ACTIVE 10000 10000)\<lparr>investment_date := 10\<rparr>)"
proof -
  let ?T = "transfer_of PARTIAL 10000 COMPLETED"
  let ?F = "fund 1 1 ACTIVE 50000 50000"
  let ?D = "ledger [?F] ?T"
  obtain i' d' where e: "handle_transfer_completion 864000 ?T ?D = Inr (i', d')"
    and p: "recorded_processed (tr_id ?T) d'"
    using eval_partial by (simp add: recorded_processed_def get_transfer_def transfer_of_def)
  have h0: "(0::nat) < 3" by simp
  have h1: "\<not> recorded_processed (tr_id ?T) ?D"
    by (simp add: recorded_processed_def get_transfer_def transfer_of_def ledger_def)
  have h2: "to_user ?T = Some bob" by (simp add: transfer_of_def)
  have h3: "related_investment ?T ?D = Inr ?F"
    by (simp add: related_investment_def transfer_of_def ledger_def fund_def get_investment_def)
  have h4: "get_investment (tr_investment ?T) ?D = Some ?F"
    by (simp add: transfer_of_def ledger_def fund_def get_investment_def)
  have h5: "distinct (map inv_id (investments ?D))" by (simp add: ledger_def)
  have c0: "capital_activities ?D = []" by (simp add: ledger_def)
  have b: "buyer_row (date_of 864000) ?T bob ?F ?D = (fund 2 2 ACTIVE 0 0)\<lparr>investment_date := 10\<rparr>"
    by (simp add: buyer_row_def new_investment_def fresh_id_def ledger_def fund_def bob_def
          arith_examples)
  have sb: "stored (buyer_update ?T ((fund 2 2 ACTIVE 0 0)\<lparr>investment_date := 10\<rparr>))
              = (fund 2 2 ACTIVE 10000 10000)\<lparr>investment_date := 10\<rparr>"
    by (simp add: stored_def buyer_update_def transfer_of_def fund_def arith_examples arith_rows)
  have ss: "stored (seller_update ?T ?F) = fund 1 1 ACTIVE 40000 40000"
    by (simp add: stored_def seller_update_def Let_def transfer_of_def fund_def arith_examples
          arith_rows)
  have ids: "tr_investment ?T = 1" "inv_id ((fund 2 2 ACTIVE 0 0)\<lparr>investment_date := 10\<rparr>) = 2"
    "transfer_amount ?T = 10000" "transfer_type ?T = PARTIAL"
    by (simp_all add: transfer_of_def fund_def)
  from settlement_idempotent[OF h0 e h1 p h2 h3 h4 h5]
  have r: "run_handler 3 864000 ?T ?D = Inr (i', d')"
    and f: "handle_transfer_completion 864000 i' d' = Inr (i', d')"
    and ip: "is_processed i'"
    and c1: "map ca_investment (capital_activities d') = [1, 2]"
    and c2: "map ca_type (capital_activities d') = [PARTIAL_EXIT, INITIAL_INVESTMENT]"
    and c3: "map amount (capital_activities d') = [10000, - 10000]"
    and g1: "get_investment 1 d' = Some (fund 1 1 ACTIVE 40000 40000)"
    and g2: "get_investment 2 d' = Some ((fund 2 2 ACTIVE 10000 10000)\<lparr>investment_date := 10\<rparr>)"
    unfolding Let_def b sb ss c0 ids
    by (simp_all add: seller_activity_def buyer_activity_def ids arith_examples arith_rows)
  show ?thesis
    by (intro exI[of _ i'] exI[of _ d'] conjI) fact+
qed

text \<open>
  The claim as stated fails for a \<^verbatim>\<open>COMPLETED\<close> transfer with a registered recipient
  whose amount, 15000, exceeds the seller's current value, 10000: after one run, and after
  two, the transfer is not processed, neither on the instance nor in the table, and there
  is neither a debit nor an activity row.
\<close>

theorem settlement_idempotent_counterexample:
  "tr_status (loaded (transfer_of PARTIAL 15000 COMPLETED) (fund 1 1 ACTIVE 10000 10000)) = COMPLETED
   \<and> to_user (loaded (transfer_of PARTIAL 15000 COMPLETED) (fund 1 1 ACTIVE 10000 10000)) = Some bob
   \<and> run_handler 1 864000
        (loaded (transfer_of PARTIAL 15000 COMPLETED) (fund 1 1 ACTIVE 10000 10000))
        (ledger [fund 1 1 ACTIVE 10000 10000] (transfer_of PARTIAL 15000 COMPLETED))
       = Inr (loaded (transfer_of PARTIAL 15000 COMPLETED) (fund 1 1 ACTIVE 10000 10000),
              ledger [fund 1 1 ACTIVE 10000 10000] (transfer_of PARTIAL 15000 COMPLETED))
   \<and> run_handler 2 864000
        (loaded (transfer_of PARTIAL 15000 COMPLETED) (fund 1 1 ACTIVE 10000 10000))
        (ledger [fund 1 1 ACTIVE 10000 10000] (transfer_of PARTIAL 15000 COMPLETED))
       = Inr (loaded (transfer_of PARTIAL 15000 COMPLETED) (fund 1 1 ACTIVE 10000 10000),
              ledger [fund 1 1 ACTIVE 10000 10000] (transfer_of PARTIAL 15000 COMPLETED))
   \<and> \<not> is_processed (loaded (transfer_of PARTIAL 15000 COMPLETED) (fund 1 1 ACTIVE 10000 10000))
   \<and> \<not> recorded_processed 7
         (ledger [fund 1 1 ACTIVE 10000 10000] (transfer_of PARTIAL 15000 COMPLETED))
   \<and> capital_activities
        (ledger [fund 1 1 ACTIVE 10000 10000] (transfer_of PARTIAL 15000 COMPLETED)) = []
   \<and> investments
        (ledger [fund 1 1 ACTIVE 10000 10000] (transfer_of PARTIAL 15000 COMPLETED))
       = [fund 1 1 ACTIVE 10000 10000]"
proof -
  let ?T = "loaded (transfer_of PARTIAL 15000 COMPLETED) (fund 1 1 ACTIVE 10000 10000)"
  let ?D = "ledger [fund 1 1 ACTIVE 10000 10000] (transfer_of PARTIAL 15000 COMPLETED)"
  have "handle_transfer_completion 864000 ?T ?D = Inr (?T, ?D)"
    by (simp add: handle_transfer_completion_def related_investment_def loaded_def
          transfer_of_def fund_def)
  from run_handler_fixed[OF this, of 1] run_handler_fixed[OF this, of 2]
  show ?thesis
    by (simp add: loaded_def transfer_of_def ledger_def recorded_processed_def get_transfer_def)
qed

section \<open>Status EXITED and zero balances\<close>

text \<open>
  Claim C6 fails on the code. The buyer side of the settlement finds the recipient's
  investment by user and fund name and credits it without looking at its status. The
  recipient here holds an \<^verbatim>\<open>EXITED\<close> investment of the fund with both balances 0
  (the state a full exit leaves); after the settlement of a transfer of 10000 that row
  still has status \<^verbatim>\<open>EXITED\<close>, and total invested and current value 10000.
\<close>

theorem buyer_credit_keeps_exited:
  "get_investment 2 (ledger [fund 1 1 ACTIVE 50000 50000, fund 2 2 EXITED 0 0]
        (transfer_of PARTIAL 10000 COMPLETED)) = Some (fund 2 2 EXITED 0 0)
   \<and> is_processed (fst (projr (handle_transfer_completion 864000
        (transfer_of PARTIAL 10000 COMPLETED)
        (ledger [fund 1 1 ACTIVE 50000 50000, fund 2 2 EXITED 0 0]
           (transfer_of PARTIAL 10000 COMPLETED)))))
   \<and> get_investment 2 (snd (projr (handle_transfer_completion 864000
        (transfer_of PARTIAL 10000 COMPLETED)
        (ledger [fund 1 1 ACTIVE 50000 50000, fund 2 2 EXITED 0 0]
           (transfer_of PARTIAL 10000 COMPLETED)))))
       = Some (fund 2 2 EXITED 10000 10000)
   \<and> inv_status (fund 2 2 EXITED 10000 10000) = EXITED
   \<and> current_value (fund 2 2 EXITED 10000 10000) \<noteq> 0
   \<and> total_invested (fund 2 2 EXITED 10000 10000) \<noteq> 0"
  unfolding eval_exited_buyer
  by (simp add: get_investment_def fund_def transfer_of_def ledger_def)

theorem buyer_credit_keeps_exited_witness:
  "\<exists>b. get_investment 2 (snd (projr (handle_transfer_completion 864000
        (transfer_of PARTIAL 10000 COMPLETED)
        (ledger [fund 1 1 ACTIVE 50000 50000, fund 2 2 EXITED 0 0]
           (transfer_of PARTIAL 10000 COMPLETED))))) = Some b
       \<and> inv_status b = EXITED \<and> current_value b = 10000 \<and> total_invested b = 10000"
  using buyer_credit_keeps_exited by (simp add: fund_def)

section \<open>Half-even rounding\<close>

lemma round_half_even_cases:
  "round_half_even x = z \<longleftrightarrow>
     (\<bar>x - of_int z\<bar> < 1 / 2 \<or> (\<bar>x - of_int z\<bar> = 1 / 2 \<and> even z))"
proof -
  define f where "f = \<lfloor>x\<rfloor>"
  define r where "r = x - of_int f"
  have r: "0 \<le> r" "r < 1" unfolding r_def f_def by linarith+
  have x: "x = of_int f + r" by (simp add: r_def)
  have v: "round_half_even x = (if r < 1 / 2 then f else if 1 / 2 < r then f + 1
             else if even f then f else f + 1)"
    by (simp add: round_half_even_def Let_def f_def r_def)
  have d: "x - of_int z = of_int (f - z) + r" by (simp add: x)
  consider "z \<le> f - 1" | "z = f" | "z = f + 1" | "f + 2 \<le> z" by linarith
  then show ?thesis
  proof cases
    case 1
    then have "1 \<le> f - z" by simp
    then have "(of_int 1 :: rat) \<le> of_int (f - z)" by (simp only: of_int_le_iff)
    then have "(1::rat) \<le> of_int (f - z)" by simp
    then have "1 \<le> x - of_int z" using r unfolding d by linarith
    then have "\<not> (\<bar>x - of_int z\<bar> < 1 / 2 \<or> (\<bar>x - of_int z\<bar> = 1 / 2 \<and> even z))" by linarith
    moreover have "round_half_even x \<noteq> z" using 1 unfolding v by auto
    ultimately show ?thesis by blast
  next
    case 2
    then have "x - of_int z = r" by (simp add: x)
    then have a: "\<bar>x - of_int z\<bar> = r" using r by simp
    show ?thesis unfolding a v using 2 r by auto
  next
    case 3
    then have "x - of_int z = r - 1" by (simp add: x)
    then have a: "\<bar>x - of_int z\<bar> = 1 - r" using r by simp
    show ?thesis unfolding a v using 3 r by auto
  next
    case 4
    then have "f - z \<le> - 2" by simp
    then have "(of_int (f - z) :: rat) \<le> of_int (- 2)" by (simp only: of_int_le_iff)
    then have "of_int (f - z) \<le> (- 2 :: rat)" by simp
    then have "x - of_int z < - 1" using r unfolding d by linarith
    then have "\<not> (\<bar>x - of_int z\<bar> < 1 / 2 \<or> (\<bar>x - of_int z\<bar> = 1 / 2 \<and> even z))" by linarith
    moreover have "round_half_even x \<noteq> z" using 4 unfolding v by auto
    ultimately show ?thesis by blast
  qed
qed

lemma round_half_even_near: "\<bar>x - of_int (round_half_even x)\<bar> \<le> 1 / 2"
  using round_half_even_cases[of x "round_half_even x"] by auto

lemma round_half_even_diff:
  assumes "\<bar>y - of_int (round_half_even y)\<bar> = 1 / 2 \<longrightarrow> even c"
  shows "round_half_even (of_int c - y) = c - round_half_even y"
proof -
  define z where "z = round_half_even y"
  have e: "\<bar>(of_int c - y) - of_int (c - z)\<bar> = \<bar>y - of_int z\<bar>" by simp
  have "\<bar>y - of_int z\<bar> < 1 / 2 \<or> (\<bar>y - of_int z\<bar> = 1 / 2 \<and> even z)"
    using round_half_even_cases[of y z] by (simp add: z_def)
  then have "\<bar>y - of_int z\<bar> < 1 / 2 \<or> (\<bar>y - of_int z\<bar> = 1 / 2 \<and> even (c - z))"
    using assms by (auto simp: z_def)
  then show ?thesis
    unfolding round_half_even_cases e z_def[symmetric] .
qed

lemma tie_fortieth_even:
  assumes "\<bar>of_int c / 40 - of_int z\<bar> = (1 / 2 :: rat)"
  shows "even c"
proof -
  have "of_int c / 40 - of_int z = (1 / 2 :: rat) \<or> of_int c / 40 - of_int z = (- 1 / 2 :: rat)"
    using assms by linarith
  then have "(of_int c :: rat) = of_int (40 * z + 20) \<or> (of_int c :: rat) = of_int (40 * z - 20)"
    by (auto simp: field_simps)
  then have "c = 40 * z + 20 \<or> c = 40 * z - 20" by (simp only: of_int_eq_iff)
  then show ?thesis by auto
qed

lemma quantize2_near: "\<bar>quantize2 y - y\<bar> \<le> 1 / 200"
proof -
  have "\<bar>quantize2 y - y\<bar> = \<bar>y * 100 - of_int (round_half_even (y * 100))\<bar> / 100"
    by (simp add: quantize2_def field_simps abs_minus_commute)
  also have "\<dots> \<le> (1 / 2) / 100"
    by (intro divide_right_mono round_half_even_near) simp
  finally show ?thesis by simp
qed

lemma to_db_small:
  assumes "\<bar>y\<bar> \<le> 10 ^ 13 - 1"
  shows "to_db y = Inr (quantize2 y)"
proof -
  have "\<bar>quantize2 y\<bar> \<le> \<bar>quantize2 y - y\<bar> + \<bar>y\<bar>" by linarith
  also have "\<dots> \<le> 1 / 200 + (10 ^ 13 - 1)" using quantize2_near[of y] assms by linarith
  also have "\<dots> < 10 ^ 13" by simp
  finally show ?thesis by (simp add: to_db_def Let_def)
qed

lemma to_db_money:
  assumes "is_money a"
  shows "to_db a = Inr a"
proof -
  from is_money_cents[OF assms] obtain c where c: "a * 100 = of_int c" by blast
  have "quantize2 a = a" using c by (rule quantize2_cents)
  moreover have "\<bar>a\<bar> < 10 ^ 13" using assms by (simp add: is_money_def)
  ultimately show ?thesis by (simp add: to_db_def Let_def)
qed

lemma fee_exact:
  assumes "is_money a"
  shows "dec_mul a (25 / 1000) = a * (25 / 1000)"
    and "dec_sub a (a * (25 / 1000)) = a - a * (25 / 1000)"
    and "quantize2 (a - a * (25 / 1000)) = a - quantize2 (a * (25 / 1000))"
    and "to_db (a * (25 / 1000)) = Inr (quantize2 (a * (25 / 1000)))"
    and "to_db (a - a * (25 / 1000)) = Inr (quantize2 (a - a * (25 / 1000)))"
proof -
  from is_money_cents[OF assms] obtain c where c: "a * 100 = of_int c" and cb: "\<bar>c\<bar> < 10 ^ 15"
    by blast
  have a: "a = of_int c / 100" using c by simp
  have ab: "\<bar>a\<bar> < 10 ^ 13" using assms by (simp add: is_money_def)
  have "a * (25 / 1000) * 10 ^ 5 = of_int (25 * c)" by (simp add: a)
  moreover have "\<bar>25 * c\<bar> < 10 ^ 28" using cb by simp
  ultimately have "ctx_round (a * (25 / 1000)) = a * (25 / 1000)" by (rule ctx_round_exact)
  then show "dec_mul a (25 / 1000) = a * (25 / 1000)" by (simp add: dec_mul_def)
  have "(a - a * (25 / 1000)) * 10 ^ 5 = of_int (975 * c)" by (simp add: a)
  moreover have "\<bar>975 * c\<bar> < 10 ^ 28" using cb by simp
  ultimately have "ctx_round (a - a * (25 / 1000)) = a - a * (25 / 1000)" by (rule ctx_round_exact)
  then show "dec_sub a (a * (25 / 1000)) = a - a * (25 / 1000)" by (simp add: dec_sub_def)
  have y: "a * (25 / 1000) * 100 = of_int c / 40" by (simp add: a)
  have d: "(a - a * (25 / 1000)) * 100 = of_int c - of_int c / 40" by (simp add: a)
  have "round_half_even (of_int c - of_int c / 40) = c - round_half_even (of_int c / 40)"
    using tie_fortieth_even by (intro round_half_even_diff) blast
  then have "quantize2 (a - a * (25 / 1000)) = of_int (c - round_half_even (of_int c / 40)) / 100"
    unfolding quantize2_def d by simp
  also have "\<dots> = a - quantize2 (a * (25 / 1000))"
    unfolding quantize2_def y by (simp add: a diff_divide_distrib)
  finally show "quantize2 (a - a * (25 / 1000)) = a - quantize2 (a * (25 / 1000))" .
  have "\<bar>a * (25 / 1000)\<bar> = \<bar>a\<bar> / 40" by (simp add: abs_mult)
  also have "\<dots> \<le> 10 ^ 13 - 1" using ab by simp
  finally show "to_db (a * (25 / 1000)) = Inr (quantize2 (a * (25 / 1000)))" by (rule to_db_small)
  have "\<bar>a - a * (25 / 1000)\<bar> = \<bar>a\<bar> * (39 / 40)"
  proof -
    have "a - a * (25 / 1000) = a * (39 / 40)" by (simp add: algebra_simps)
    then show ?thesis by (simp add: abs_mult)
  qed
  also have "\<dots> \<le> 10 ^ 13 - 1" using ab by simp
  finally show "to_db (a - a * (25 / 1000)) = Inr (quantize2 (a - a * (25 / 1000)))"
    by (rule to_db_small)
qed

lemma find_put_transfer:
  "find (\<lambda>r. tr_id r = k) (put_transfer x rows) =
     (if tr_id x = k then Some x else find (\<lambda>r. tr_id r = k) rows)"
proof (cases "\<exists>r \<in> set rows. tr_id r = tr_id x")
  case True
  have "find (\<lambda>r. tr_id r = k) (map (\<lambda>r. if tr_id r = tr_id x then x else r) rows) =
     (if tr_id x = k \<and> (\<exists>r \<in> set rows. tr_id r = k) then Some x
      else find (\<lambda>r. tr_id r = k) rows)"
    by (induction rows) auto
  with True show ?thesis by (auto simp: put_transfer_def)
next
  case False
  then have "find (\<lambda>r. tr_id r = tr_id x) rows = None" by (induction rows) auto
  with False show ?thesis
    by (auto simp: put_transfer_def find_append_row split: option.splits)
qed

lemma find_flag_update:
  "find (\<lambda>r. tr_id r = k)
     (map (\<lambda>r. if tr_id r = j then r\<lparr>is_processed := p, completion_date := c\<rparr> else r) rows)
   = map_option (\<lambda>r. if tr_id r = j then r\<lparr>is_processed := p, completion_date := c\<rparr> else r)
       (find (\<lambda>r. tr_id r = k) rows)"
  by (induction rows) auto

text \<open>The receiver changes nothing of a transfer row but the two flags, and never the
  instance's amount; fee and net amount of the instance are the ones it had or the ones
  the save override computes.\<close>

lemma handler_transfer_row:
  assumes "handle_transfer_completion now i d = Inr (i', d')"
    and "get_transfer k d = Some t"
  shows "\<exists>t'. get_transfer k d' = Some t'
           \<and> tr_status t' = tr_status t \<and> transfer_amount t' = transfer_amount t
           \<and> transfer_fee t' = transfer_fee t \<and> net_amount t' = net_amount t"
proof (cases "d' = d")
  case True
  with assms(2) show ?thesis by simp
next
  case False
  with handler_cases[OF assms(1)] obtain buyer s where
    st: "settle now (i\<lparr>investment_obj := Some s\<rparr>) buyer s d = Inr (i', d')" by auto
  from settle_Inr[OF st] have tr: "transfers d' = map (\<lambda>r. if tr_id r = tr_id i
                          then r\<lparr>is_processed := True,
                                 completion_date := (case completion_date i of None \<Rightarrow> Some now | Some c \<Rightarrow> Some c)\<rparr>
                          else r) (transfers d)"
    by blast
  show ?thesis
    using assms(2) unfolding get_transfer_def tr find_flag_update by auto
qed

lemma pre_save_money:
  "transfer_fee (pre_save now x) = dec_mul (transfer_amount x) (25 / 1000)"
  "net_amount (pre_save now x) =
     dec_sub (transfer_amount x) (dec_mul (transfer_amount x) (25 / 1000))"
  by (simp_all add: pre_save_def Let_def)

lemma handler_instance:
  assumes "handle_transfer_completion now i d = Inr (i', d')"
  shows "transfer_amount i' = transfer_amount i
       \<and> ((transfer_fee i' = transfer_fee i \<and> net_amount i' = net_amount i)
          \<or> (transfer_fee i' = dec_mul (transfer_amount i) (25 / 1000)
             \<and> net_amount i' =
                 dec_sub (transfer_amount i) (dec_mul (transfer_amount i) (25 / 1000))))"
proof -
  from handler_cases[OF assms] consider
      "i' = i"
    | s where "i' = i\<lparr>investment_obj := Some s\<rparr>"
    | buyer s e where "settle now (i\<lparr>investment_obj := Some s\<rparr>) buyer s d = Inl (e, i')"
    | buyer s where "settle now (i\<lparr>investment_obj := Some s\<rparr>) buyer s d = Inr (i', d')"
    by blast
  then show ?thesis
  proof cases
    case 1
    then show ?thesis by simp
  next
    case 2
    then show ?thesis by simp
  next
    case 3
    from settle_Inl[OF 3] show ?thesis
      by (auto simp: pre_save_fields pre_save_money)
  next
    case 4
    from settle_Inr[OF 4] have "i' = pre_save now
        (i\<lparr>investment_obj := Some (seller_update i s), is_processed := True,
           completion_date := (case completion_date i of None \<Rightarrow> Some now | Some c \<Rightarrow> Some c)\<rparr>)"
      by blast
    then show ?thesis by (simp add: pre_save_fields pre_save_money)
  qed
qed

lemma save_row:
  assumes "OwnershipTransfer_save now x d = Inr (x', d')"
  shows "\<exists>row. get_transfer (tr_id x) d' = Some row
           \<and> tr_status row = tr_status x
           \<and> transfer_amount row = quantize2 (transfer_amount x)
           \<and> transfer_fee row = quantize2 (dec_mul (transfer_amount x) (25 / 1000))
           \<and> net_amount row =
               quantize2 (dec_sub (transfer_amount x) (dec_mul (transfer_amount x) (25 / 1000)))"
    and "transfer_fee x' = dec_mul (transfer_amount x) (25 / 1000)
       \<and> net_amount x' = dec_sub (transfer_amount x) (dec_mul (transfer_amount x) (25 / 1000))"
proof -
  define s1 where "s1 = pre_save now x"
  from assms obtain a f n where
    a: "to_db (transfer_amount s1) = Inr a" and f: "to_db (transfer_fee s1) = Inr f"
    and n: "to_db (net_amount s1) = Inr n"
    and h: "handle_transfer_completion now s1
             (d\<lparr>transfers :=
                  put_transfer (s1\<lparr>transfer_amount := a, transfer_fee := f, net_amount := n,
                                    investment_obj := None\<rparr>)
                    (transfers d)\<rparr>) = Inr (x', d')"
    unfolding OwnershipTransfer_save_def Let_def bind_result_Inr_iff s1_def by blast
  let ?row = "s1\<lparr>transfer_amount := a, transfer_fee := f, net_amount := n,
                   investment_obj := None\<rparr>"
  let ?d1 = "d\<lparr>transfers := put_transfer ?row (transfers d)\<rparr>"
  have id: "tr_id ?row = tr_id x" by (simp add: s1_def pre_save_fields)
  have g: "get_transfer (tr_id x) ?d1 = Some ?row"
    unfolding get_transfer_def by (simp add: find_put_transfer id)
  from handler_transfer_row[OF h g] obtain t' where
    t: "get_transfer (tr_id x) d' = Some t'" "tr_status t' = tr_status ?row"
       "transfer_amount t' = transfer_amount ?row" "transfer_fee t' = transfer_fee ?row"
       "net_amount t' = net_amount ?row" by blast
  have v: "a = quantize2 (transfer_amount x)"
    "f = quantize2 (dec_mul (transfer_amount x) (25 / 1000))"
    "n = quantize2 (dec_sub (transfer_amount x) (dec_mul (transfer_amount x) (25 / 1000)))"
    using to_db_Inr[OF a] to_db_Inr[OF f] to_db_Inr[OF n]
    by (simp_all add: s1_def pre_save_fields pre_save_money)
  show "\<exists>row. get_transfer (tr_id x) d' = Some row
           \<and> tr_status row = tr_status x
           \<and> transfer_amount row = quantize2 (transfer_amount x)
           \<and> transfer_fee row = quantize2 (dec_mul (transfer_amount x) (25 / 1000))
           \<and> net_amount row =
               quantize2 (dec_sub (transfer_amount x) (dec_mul (transfer_amount x) (25 / 1000)))"
    using t v by (simp add: s1_def pre_save_fields)
  from handler_instance[OF h]
  show "transfer_fee x' = dec_mul (transfer_amount x) (25 / 1000)
       \<and> net_amount x' = dec_sub (transfer_amount x) (dec_mul (transfer_amount x) (25 / 1000))"
    by (auto simp: s1_def pre_save_fields pre_save_money)
qed

section \<open>Fee and net amount\<close>

text \<open>
  Claim C5. Every save of a transfer whose amount is a stored money amount (two decimals)
  writes a row in which \<^verbatim>\<open>transfer_fee\<close> is \<^verbatim>\<open>round(transfer_amount * 0.025, 2)\<close> and
  \<^verbatim>\<open>net_amount\<close> is \<^verbatim>\<open>transfer_amount - transfer_fee\<close>, whatever fee and net amount
  the instance carried into the save. The rounding is the one of the two-decimal columns:
  the instance itself holds the product and the difference unrounded after the save.
\<close>

theorem fee_derivation:
  assumes "is_money (transfer_amount self)"
    and "OwnershipTransfer_save now self d = Inr (self', d')"
  shows "\<exists>row. get_transfer (tr_id self) d' = Some row
      \<and> transfer_amount row = transfer_amount self
      \<and> transfer_fee row = quantize2 (transfer_amount self * (25 / 1000))
      \<and> net_amount row = transfer_amount row - transfer_fee row
      \<and> transfer_fee self' = transfer_amount self * (25 / 1000)
      \<and> net_amount self' = transfer_amount self - transfer_fee self'"
proof -
  note fe = fee_exact[OF assms(1)]
  from is_money_cents[OF assms(1)] obtain c where "transfer_amount self * 100 = of_int c" by blast
  then have qa: "quantize2 (transfer_amount self) = transfer_amount self" by (rule quantize2_cents)
  from save_row(1)[OF assms(2)] obtain row where
    r: "get_transfer (tr_id self) d' = Some row"
       "transfer_amount row = transfer_amount self"
       "transfer_fee row = quantize2 (transfer_amount self * (25 / 1000))"
       "net_amount row = transfer_amount self - quantize2 (transfer_amount self * (25 / 1000))"
    unfolding fe(1) fe(2) fe(3) qa by blast
  from save_row(2)[OF assms(2)] have
    j: "transfer_fee self' = dec_mul (transfer_amount self) (25 / 1000)"
       "net_amount self' =
          dec_sub (transfer_amount self) (dec_mul (transfer_amount self) (25 / 1000))"
    by blast+
  have i1: "transfer_fee self' = transfer_amount self * (25 / 1000)"
    unfolding j(1) fe(1) ..
  have i2: "net_amount self' = transfer_amount self - transfer_amount self * (25 / 1000)"
    unfolding j(2) fe(1) fe(2) ..
  have i3: "net_amount self' = transfer_amount self - transfer_fee self'"
    unfolding i2 i1 ..
  have r4: "net_amount row = transfer_amount row - transfer_fee row"
    unfolding r(2) r(3) r(4) ..
  from r(1) r(2) r(3) r4 i1 i3 show ?thesis by blast
qed

lemma arith_save:
  "dec_mul (100001 / 100) (1 / 40) = 100001 / 4000"
  "dec_sub (100001 / 100) (100001 / 4000) = 3900039 / 4000"
  "to_db (100001 / 100) = Inr (100001 / 100)"
  "to_db (100001 / 4000) = Inr 25"
  "to_db (3900039 / 4000) = Inr (97501 / 100)"
  "is_money (100001 / 100)"
  "quantize2 (100001 / 4000) = 25"
  by code_simp+

lemma eval_save:
  "OwnershipTransfer_save 864000
     ((transfer_of PARTIAL (100001 / 100) DRAFT)\<lparr>transfer_fee := 7, net_amount := 9\<rparr>)
     (ledger [fund 1 1 ACTIVE 50000 50000] (transfer_of PARTIAL (100001 / 100) DRAFT)) =
   Inr ((transfer_of PARTIAL (100001 / 100) DRAFT)
          \<lparr>transfer_fee := 100001 / 4000, net_amount := 3900039 / 4000\<rparr>,
        ledger [fund 1 1 ACTIVE 50000 50000]
          ((transfer_of PARTIAL (100001 / 100) DRAFT)
             \<lparr>transfer_fee := 25, net_amount := 97501 / 100\<rparr>))"
  by (simp add: OwnershipTransfer_save_def put_transfer_def model_defs arith_save)

theorem fee_derivation_witness:
  "\<exists>self' d'.
     is_money (transfer_amount
       ((transfer_of PARTIAL (100001 / 100) DRAFT)\<lparr>transfer_fee := 7, net_amount := 9\<rparr>))
   \<and> OwnershipTransfer_save 864000
        ((transfer_of PARTIAL (100001 / 100) DRAFT)\<lparr>transfer_fee := 7, net_amount := 9\<rparr>)
        (ledger [fund 1 1 ACTIVE 50000 50000] (transfer_of PARTIAL (100001 / 100) DRAFT))
       = Inr (self', d')
   \<and> (\<exists>row. get_transfer 7 d' = Some row
         \<and> transfer_amount row = 100001 / 100
         \<and> transfer_fee row = 25
         \<and> net_amount row = 97501 / 100
         \<and> transfer_fee self' = 100001 / 4000)"
proof -
  let ?T = "(transfer_of PARTIAL (100001 / 100) DRAFT)\<lparr>transfer_fee := 7, net_amount := 9\<rparr>"
  let ?D = "ledger [fund 1 1 ACTIVE 50000 50000] (transfer_of PARTIAL (100001 / 100) DRAFT)"
  obtain self' d' where e: "OwnershipTransfer_save 864000 ?T ?D = Inr (self', d')"
    using eval_save by simp
  have m: "is_money (transfer_amount ?T)" by (simp add: transfer_of_def arith_save)
  have v: "tr_id ?T = 7" "transfer_amount ?T = 100001 / 100" by (simp_all add: transfer_of_def)
  from fee_derivation[OF m e]
  have "\<exists>row. get_transfer 7 d' = Some row
         \<and> transfer_amount row = 100001 / 100
         \<and> transfer_fee row = 25
         \<and> net_amount row = 97501 / 100
         \<and> transfer_fee self' = 100001 / 4000"
    unfolding v by (auto simp: arith_save)
  with m e show ?thesis by blast
qed

lemma handler_returns:
  assumes "investment_obj i = Some s"
  shows "\<exists>r. handle_transfer_completion now i d = Inr r"
  using assms
  by (auto simp: handle_transfer_completion_def related_investment_def Let_def
        split: option.splits sum.splits prod.splits)

lemma save_returns:
  assumes "is_money (transfer_amount x)" and "investment_obj x = Some s"
  shows "\<exists>r. OwnershipTransfer_save now x d = Inr r"
proof -
  note fe = fee_exact[OF assms(1)]
  define s1 where "s1 = pre_save now x"
  have a: "to_db (transfer_amount s1) = Inr (transfer_amount x)"
    unfolding s1_def pre_save_fields using assms(1) by (rule to_db_money)
  have f: "to_db (transfer_fee s1) = Inr (quantize2 (transfer_amount x * (25 / 1000)))"
    unfolding s1_def pre_save_money fe(1) by (rule fe(4))
  have n: "to_db (net_amount s1) =
             Inr (quantize2 (transfer_amount x - transfer_amount x * (25 / 1000)))"
    unfolding s1_def pre_save_money fe(1) fe(2) by (rule fe(5))
  let ?d1 = "d\<lparr>transfers := put_transfer
       (s1\<lparr>transfer_amount := transfer_amount x,
           transfer_fee := quantize2 (transfer_amount x * (25 / 1000)),
           net_amount := quantize2 (transfer_amount x - transfer_amount x * (25 / 1000)),
           investment_obj := None\<rparr>)
       (transfers d)\<rparr>"
  have "investment_obj s1 = Some s"
    using assms(2) by (simp add: s1_def pre_save_fields)
  from handler_returns[OF this] obtain r where
    "handle_transfer_completion now s1 ?d1 = Inr r" by blast
  then have "OwnershipTransfer_save now x d = Inr r"
    unfolding OwnershipTransfer_save_def Let_def s1_def[symmetric] a f n bind_result_def
    by simp
  then show ?thesis by blast
qed

lemma find_map_filter:
  assumes "find P (List.map_filter f xs) = Some t"
  shows "\<exists>r \<in> set xs. f r = Some t"
  using assms by (induction xs) (auto simp: List.map_filter_simps split: option.splits if_splits)

text \<open>A transfer that \<^verbatim>\<open>get_object\<close> finds has the key asked for and comes with its
  investment.\<close>

lemma find_queryset:
  assumes "find (\<lambda>t. tr_id t = pk) (get_queryset u sf dr d) = Some t"
  shows "tr_id t = pk" and "\<exists>s. investment_obj t = Some s"
proof -
  from assms show "tr_id t = pk" by (auto simp: find_Some_iff)
  from assms obtain r where "select_related d r = Some t"
    unfolding get_queryset_def Let_def using find_map_filter by fastforce
  then show "\<exists>s. investment_obj t = Some s"
    by (auto simp: select_related_def split: option.splits)
qed

text \<open>
  What the status guard of the action does for a staff user and a transfer that
  \<^verbatim>\<open>get_object\<close> finds: a success means the status was \<^verbatim>\<open>APPROVED\<close> and the stored
  status has become \<^verbatim>\<open>COMPLETED\<close>; any other answer leaves the database unchanged; a
  transfer with a money amount is completed when it is \<^verbatim>\<open>APPROVED\<close> and answered with
  400 otherwise.
\<close>

lemma complete_guard:
  "(complete now u sf dr pk d = Inr (HTTP_200_OK, d') \<longrightarrow>
       (\<exists>t. find (\<lambda>t. tr_id t = pk) (get_queryset u sf dr d) = Some t \<and> tr_status t = APPROVED)
     \<and> (\<exists>t'. get_transfer pk d' = Some t' \<and> tr_status t' = COMPLETED))
   \<and> (complete now u sf dr pk d = Inr (r, d') \<and> r \<noteq> HTTP_200_OK \<longrightarrow> d' = d)
   \<and> (is_staff u \<and> find (\<lambda>t. tr_id t = pk) (get_queryset u sf dr d) = Some t
        \<and> is_money (transfer_amount t) \<longrightarrow>
        (tr_status t = APPROVED \<longrightarrow> (\<exists>d''. complete now u sf dr pk d = Inr (HTTP_200_OK, d'')))
      \<and> (tr_status t \<noteq> APPROVED \<longrightarrow> complete now u sf dr pk d = Inr (HTTP_400_BAD_REQUEST, d)))"
proof (intro conjI impI)
  assume c: "complete now u sf dr pk d = Inr (HTTP_200_OK, d')"
  then obtain t where f: "find (\<lambda>t. tr_id t = pk) (get_queryset u sf dr d) = Some t"
    and a: "tr_status t = APPROVED"
    and s: "bind_result (OwnershipTransfer_save now (t\<lparr>tr_status := COMPLETED\<rparr>) d)
              (\<lambda>(t, d'). Inr (HTTP_200_OK, d')) = Inr (HTTP_200_OK, d')"
    by (auto simp: complete_def split: if_splits option.splits)
  from s obtain t2 where sv: "OwnershipTransfer_save now (t\<lparr>tr_status := COMPLETED\<rparr>) d = Inr (t2, d')"
    by (auto simp: bind_result_Inr_iff)
  from f a show "\<exists>t. find (\<lambda>t. tr_id t = pk) (get_queryset u sf dr d) = Some t \<and> tr_status t = APPROVED"
    by blast
  from save_row(1)[OF sv] find_queryset(1)[OF f]
  show "\<exists>t'. get_transfer pk d' = Some t' \<and> tr_status t' = COMPLETED" by auto
next
  assume "complete now u sf dr pk d = Inr (r, d') \<and> r \<noteq> HTTP_200_OK"
  then show "d' = d"
    by (auto simp: complete_def bind_result_Inr_iff split: if_splits option.splits)
next
  assume h: "is_staff u \<and> find (\<lambda>t. tr_id t = pk) (get_queryset u sf dr d) = Some t
        \<and> is_money (transfer_amount t)"
    and a: "tr_status t = APPROVED"
  from h find_queryset(2) obtain s where "investment_obj t = Some s" by blast
  with h have "is_money (transfer_amount (t\<lparr>tr_status := COMPLETED\<rparr>))"
    "investment_obj (t\<lparr>tr_status := COMPLETED\<rparr>) = Some s" by simp_all
  from save_returns[OF this] obtain t2 d2 where
    "OwnershipTransfer_save now (t\<lparr>tr_status := COMPLETED\<rparr>) d = Inr (t2, d2)" by fastforce
  then have "complete now u sf dr pk d = Inr (HTTP_200_OK, d2)"
    using h a by (simp add: complete_def bind_result_def)
  then show "\<exists>d''. complete now u sf dr pk d = Inr (HTTP_200_OK, d'')" by blast
next
  assume h: "is_staff u \<and> find (\<lambda>t. tr_id t = pk) (get_queryset u sf dr d) = Some t
        \<and> is_money (transfer_amount t)"
    and a: "tr_status t \<noteq> APPROVED"
  then show "complete now u sf dr pk d = Inr (HTTP_400_BAD_REQUEST, d)"
    by (simp add: complete_def)
qed

text \<open>
  The status column itself is not guarded: the scenario of the repository's test
  (tests.py, lines 132 to 138), a stored \<^verbatim>\<open>PENDING\<close> transfer whose instance is set to
  \<^verbatim>\<open>COMPLETED\<close> and saved, stores \<^verbatim>\<open>COMPLETED\<close> and settles the transfer.
\<close>

lemma arith_fee:
  "to_db 250 = Inr 250"
  "to_db 9750 = Inr 9750"
  by code_simp+

lemma plain_save_completes_pending:
  "map_option tr_status
     (get_transfer 7 (ledger [fund 1 1 ACTIVE 50000 50000] (transfer_of PARTIAL 10000 PENDING)))
     = Some PENDING
   \<and> map_option (\<lambda>t. (tr_status t, is_processed t))
       (get_transfer 7 (snd (projr (OwnershipTransfer_save 864000
          (loaded ((transfer_of PARTIAL 10000 PENDING)\<lparr>tr_status := COMPLETED\<rparr>)
             (fund 1 1 ACTIVE 50000 50000))
          (ledger [fund 1 1 ACTIVE 50000 50000] (transfer_of PARTIAL 10000 PENDING))))))
     = Some (COMPLETED, True)
   \<and> map current_value
       (investments (snd (projr (OwnershipTransfer_save 864000
          (loaded ((transfer_of PARTIAL 10000 PENDING)\<lparr>tr_status := COMPLETED\<rparr>)
             (fund 1 1 ACTIVE 50000 50000))
          (ledger [fund 1 1 ACTIVE 50000 50000] (transfer_of PARTIAL 10000 PENDING))))))
     = [40000, 10000]"
  by (simp add: OwnershipTransfer_save_def put_transfer_def get_transfer_def model_defs
        arith_examples arith_fee)

section \<open>The state guard of complete\<close>

text \<open>
  Claim C7 fails on the code. The action is documented as
  \<^verbatim>\<open>Complete an approved transfer (Admin only)\<close> and is restricted to staff, but it looks
  the transfer up in the queryset of the requesting user, which holds only the transfers
  that user sends or receives. Carol is staff and is neither the sender nor the recipient
  of transfer 7, which is stored with status \<^verbatim>\<open>APPROVED\<close>: her request to complete it,
  with no query parameter, is answered 404, and the transfer stays \<^verbatim>\<open>APPROVED\<close>.
\<close>

theorem complete_hidden_from_staff:
  "is_staff carol
   \<and> uid carol \<noteq> uid (from_user (transfer_of PARTIAL 10000 APPROVED))
   \<and> to_user (transfer_of PARTIAL 10000 APPROVED) = Some bob \<and> uid carol \<noteq> uid bob
   \<and> get_transfer 7 (ledger [fund 1 1 ACTIVE 50000 50000] (transfer_of PARTIAL 10000 APPROVED))
       = Some (transfer_of PARTIAL 10000 APPROVED)
   \<and> tr_status (transfer_of PARTIAL 10000 APPROVED) = APPROVED
   \<and> complete 864000 carol None None 7
        (ledger [fund 1 1 ACTIVE 50000 50000] (transfer_of PARTIAL 10000 APPROVED))
       = Inr (HTTP_404_NOT_FOUND,
              ledger [fund 1 1 ACTIVE 50000 50000] (transfer_of PARTIAL 10000 APPROVED))"
  by (simp add: complete_def get_queryset_def List.map_filter_simps get_transfer_def ledger_def
        transfer_of_def carol_def alice_def bob_def)

theorem complete_hidden_from_staff_witness:
  "\<exists>r. complete 864000 carol None None 7
          (ledger [fund 1 1 ACTIVE 50000 50000] (transfer_of PARTIAL 10000 APPROVED))
         = Inr (r, ledger [fund 1 1 ACTIVE 50000 50000] (transfer_of PARTIAL 10000 APPROVED))
       \<and> r = HTTP_404_NOT_FOUND"
  using complete_hidden_from_staff by simp

section \<open>XIRR never raises\<close>

text \<open>
  Claim C8. For all dates, cash flows and guess, and whatever the float operations and
  the root finder do, \<^verbatim>\<open>xirr\<close> returns (a rate or \<^verbatim>\<open>None\<close>) and raises nothing.
  It returns \<^verbatim>\<open>None\<close> when the two sequences differ in length, when there are fewer
  than two points, and when the \<^verbatim>\<open>newton\<close> call, made with the guess and at most 100
  iterations, raises, as SciPy does when the iteration does not converge. The default
  guess is 0.1.
\<close>

theorem xirr_total:
  "(\<exists>r. xirr ops dates cash_flows guess = Inr r)
   \<and> (length dates \<noteq> length cash_flows \<longrightarrow> xirr ops dates cash_flows guess = Inr None)
   \<and> (length dates < 2 \<longrightarrow> xirr ops dates cash_flows guess = Inr None)
   \<and> (length dates = length cash_flows \<and> 2 \<le> length dates \<and> py_min dates = Inr m
        \<and> newton ops (\<lambda>r. xnpv ops r (map (\<lambda>d. d - m) dates) cash_flows) guess 100 = Inl e
      \<longrightarrow> xirr ops dates cash_flows guess = Inr None)
   \<and> xirr_default ops dates cash_flows = xirr ops dates cash_flows (float_lit ops (1 / 10))"
proof (intro conjI impI)
  show "\<exists>r. xirr ops dates cash_flows guess = Inr r"
  proof (cases dates)
    case Nil
    then show ?thesis by (simp add: xirr_def)
  next
    case (Cons x xs)
    then have "py_min dates = Inr (fold min xs x)" by (simp add: py_min_def)
    then show ?thesis
      by (simp add: xirr_def bind_result_def Let_def split: sum.splits)
  qed
next
  assume "length dates \<noteq> length cash_flows"
  then show "xirr ops dates cash_flows guess = Inr None" by (simp add: xirr_def)
next
  assume "length dates < 2"
  then show "xirr ops dates cash_flows guess = Inr None" by (simp add: xirr_def)
next
  assume "length dates = length cash_flows \<and> 2 \<le> length dates \<and> py_min dates = Inr m
        \<and> newton ops (\<lambda>r. xnpv ops r (map (\<lambda>d. d - m) dates) cash_flows) guess 100 = Inl e"
  then show "xirr ops dates cash_flows guess = Inr None"
    by (simp add: xirr_def bind_result_def Let_def)
next
  show "xirr_default ops dates cash_flows = xirr ops dates cash_flows (float_lit ops (1 / 10))"
    by (simp add: xirr_default_def)
qed

theorem xirr_total_witness:
  "length [0, 365 :: int] = length [- 1000, 1100 :: rat] \<and> 2 \<le> length [0, 365 :: int]
   \<and> py_min [0, 365] = Inr 0
   \<and> newton rat_ops (\<lambda>r. xnpv rat_ops r (map (\<lambda>d. d - 0) [0, 365]) [- 1000, 1100]) (1 / 10) 100
       = Inl RuntimeError
   \<and> xirr rat_ops [0, 365] [- 1000, 1100] (1 / 10) = Inr None
   \<and> length [0 :: int] \<noteq> length [1, 2 :: rat]
   \<and> xirr rat_ops [0] [1, 2] (1 / 10) = Inr None
   \<and> length [0 :: int] < 2
   \<and> xirr rat_ops [0] [1] (1 / 10) = Inr None"
proof -
  have a: "length [0, 365 :: int] = length [- 1000, 1100 :: rat] \<and> 2 \<le> length [0, 365 :: int]
     \<and> py_min [0, 365] = Inr 0
     \<and> newton rat_ops (\<lambda>r. xnpv rat_ops r (map (\<lambda>d. d - 0) [0, 365]) [- 1000, 1100]) (1 / 10) 100
         = Inl RuntimeError"
    by (simp add: py_min_def rat_ops_def)
  have b: "length [0 :: int] \<noteq> length [1, 2 :: rat]" by simp
  have c: "length [0 :: int] < 2" by simp
  from xirr_total[of rat_ops "[0, 365]" "[- 1000, 1100]" "1 / 10" 0 RuntimeError] a
  have 1: "xirr rat_ops [0, 365] [- 1000, 1100] (1 / 10) = Inr None" by blast
  from xirr_total[of rat_ops "[0]" "[1, 2]" "1 / 10" 0 RuntimeError] b
  have 2: "xirr rat_ops [0] [1, 2] (1 / 10) = Inr None" by blast
  from xirr_total[of rat_ops "[0]" "[1]" "1 / 10" 0 RuntimeError] c
  have 3: "xirr rat_ops [0] [1] (1 / 10) = Inr None" by blast
  from a b c 1 2 3 show ?thesis by blast
qed

section \<open>Empty portfolio\<close>

text \<open>
  Claim C9. For a user none of whose investments has status \<^verbatim>\<open>ACTIVE\<close> or
  \<^verbatim>\<open>UNDERPERFORMING\<close>, \<^verbatim>\<open>calculate_portfolio_metrics\<close> returns, without raising, the
  metrics with total value, total invested, unrealized gains, their percentage and the
  average IRR all 0 and with 0 investments.
\<close>

theorem empty_portfolio_metrics:
  assumes "\<forall>r \<in> set (investments d).
             inv_user r = user_id \<longrightarrow> inv_status r \<notin> {ACTIVE, UNDERPERFORMING}"
  shows "calculate_portfolio_metrics ops today user_id d =
           Inr \<lparr>m_total_value = 0, m_total_invested = 0, unrealized_gains = 0,
                unrealized_gains_percentage = 0, average_irr = 0, num_investments = 0\<rparr>"
proof -
  have "portfolio_investments user_id d = []"
    unfolding portfolio_investments_def filter_empty_conv using assms by blast
  then show ?thesis by (simp add: calculate_portfolio_metrics_def)
qed

theorem empty_portfolio_metrics_witness:
  "investments (ledger [fund 1 1 EXITED 0 0, fund 2 2 ACTIVE 10000 10000]
                 (transfer_of PARTIAL 10000 DRAFT))
     = [fund 1 1 EXITED 0 0, fund 2 2 ACTIVE 10000 10000]
   \<and> calculate_portfolio_metrics rat_ops 10 1
        (ledger [fund 1 1 EXITED 0 0, fund 2 2 ACTIVE 10000 10000] (transfer_of PARTIAL 10000 DRAFT))
       = Inr \<lparr>m_total_value = 0, m_total_invested = 0, unrealized_gains = 0,
              unrealized_gains_percentage = 0, average_irr = 0, num_investments = 0\<rparr>"
proof -
  have h: "\<forall>r \<in> set (investments (ledger [fund 1 1 EXITED 0 0, fund 2 2 ACTIVE 10000 10000]
                 (transfer_of PARTIAL 10000 DRAFT))).
      inv_user r = 1 \<longrightarrow> inv_status r \<notin> {ACTIVE, UNDERPERFORMING}"
    by (simp add: ledger_def fund_def)
  have i: "investments (ledger [fund 1 1 EXITED 0 0, fund 2 2 ACTIVE 10000 10000]
                 (transfer_of PARTIAL 10000 DRAFT))
     = [fund 1 1 EXITED 0 0, fund 2 2 ACTIVE 10000 10000]"
    by (simp add: ledger_def)
  from empty_portfolio_metrics[OF h, of rat_ops 10] i show ?thesis by blast
qed

section \<open>Sign normalization of the IRR cash flows\<close>

lemma unsigned_fields:
  "ca_investment (unsigned a) = ca_investment a"
  "ca_date (unsigned a) = ca_date a"
  "ca_type (unsigned a) = ca_type a"
  "amount (unsigned a) = \<bar>amount a\<bar>"
  by (simp_all add: unsigned_def)

lemma cash_flow_of_unsigned: "cash_flow_of ops (unsigned a) = cash_flow_of ops a"
  by (simp add: cash_flow_of_def unsigned_fields dec_abs_def)

lemma insort_unsigned:
  "map unsigned (insort_key ca_date a xs) = insort_key ca_date (unsigned a) (map unsigned xs)"
  by (induction xs) (simp_all add: unsigned_fields)

lemma sort_unsigned: "map unsigned (sort_key ca_date xs) = sort_key ca_date (map unsigned xs)"
  by (induction xs) (simp_all add: insort_unsigned)

lemma filter_unsigned:
  "map unsigned (filter (\<lambda>a. ca_investment a = k) xs)
     = filter (\<lambda>a. ca_investment a = k) (map unsigned xs)"
  by (induction xs) (simp_all add: unsigned_fields)

lemma activities_unsigned:
  "map unsigned (activities_by_date iv d)
     = sort_key ca_date (filter (\<lambda>a. ca_investment a = inv_id iv)
         (map unsigned (capital_activities d)))"
  by (simp add: activities_by_date_def sort_unsigned filter_unsigned)

lemma build_cash_flows_unsigned:
  "build_cash_flows ops today iv acts = build_cash_flows ops today iv (map unsigned acts)"
  by (simp add: build_cash_flows_def unsigned_fields cash_flow_of_unsigned comp_def)

lemma irr_unsigned:
  assumes "map unsigned (activities_by_date iv d1) = map unsigned (activities_by_date iv d2)"
  shows "calculate_investment_irr ops today iv d1 = calculate_investment_irr ops today iv d2"
proof -
  have e: "activities_by_date iv d1 = [] \<longleftrightarrow> activities_by_date iv d2 = []"
    using assms by (metis map_is_Nil_conv)
  have b: "build_cash_flows ops today iv (activities_by_date iv d1)
         = build_cash_flows ops today iv (activities_by_date iv d2)"
    using assms build_cash_flows_unsigned by metis
  show ?thesis
    unfolding calculate_investment_irr_def Let_def b using e by simp
qed

lemma money_abs:
  assumes "is_money x"
  shows "dec_abs x = \<bar>x\<bar>" and "dec_neg (dec_abs x) = - \<bar>x\<bar>"
proof -
  from is_money_cents[OF assms] obtain c where c: "x * 100 = of_int c" "\<bar>c\<bar> < 10 ^ 15" by blast
  have "\<bar>x\<bar> * 10 ^ 2 = of_int \<bar>c\<bar>"
  proof -
    have "\<bar>x\<bar> * 100 = \<bar>x * 100\<bar>" by (simp add: abs_mult)
    then show ?thesis by (simp add: c(1))
  qed
  moreover have "\<bar>\<bar>c\<bar>\<bar> < 10 ^ 28" using c(2) by simp
  ultimately have 1: "ctx_round \<bar>x\<bar> = \<bar>x\<bar>" by (rule ctx_round_exact)
  have "(- \<bar>x\<bar>) * 10 ^ 2 = of_int (- \<bar>c\<bar>)"
  proof -
    have "\<bar>x\<bar> * 100 = \<bar>x * 100\<bar>" by (simp add: abs_mult)
    then show ?thesis by (simp add: c(1))
  qed
  moreover have "\<bar>- \<bar>c\<bar>\<bar> < 10 ^ 28" using c(2) by simp
  ultimately have 2: "ctx_round (- \<bar>x\<bar>) = - \<bar>x\<bar>" by (rule ctx_round_exact)
  show "dec_abs x = \<bar>x\<bar>" using 1 by (simp add: dec_abs_def)
  then show "dec_neg (dec_abs x) = - \<bar>x\<bar>" using 2 by (simp add: dec_neg_def)
qed

lemma cash_flow_of_money:
  assumes "is_money (amount a)"
  shows "cash_flow_of ops a = float_lit ops (normalized_amount a)"
  using money_abs[OF assms] by (simp add: cash_flow_of_def normalized_amount_def)

lemma build_cash_flows_series:
  assumes "\<forall>a \<in> set acts. is_money (amount a)"
  shows "build_cash_flows ops today iv acts =
           (map ca_date acts @ [today],
            map (float_lit ops) (map normalized_amount acts @ [current_value iv]))"
proof -
  have "map (cash_flow_of ops) acts = map (float_lit ops) (map normalized_amount acts)"
    using assms by (induction acts) (simp_all add: cash_flow_of_money)
  then show ?thesis by (simp add: build_cash_flows_def)
qed

lemma activities_by_date_set:
  "set (activities_by_date iv d) = {a \<in> set (capital_activities d). ca_investment a = inv_id iv}"
  by (auto simp: activities_by_date_def)

text \<open>
  Claim C10, as amended. For an investment whose capital activity rows hold stored money
  amounts, the series that \<^verbatim>\<open>calculate_investment_irr\<close> builds has one flow for each
  activity of the investment, in date order, followed by one final flow dated today. The
  flow of an activity is the normalized amount, whatever the sign of the stored amount:
  \<open>- |amount|\<close> for \<^verbatim>\<open>INITIAL_INVESTMENT\<close> and \<^verbatim>\<open>CAPITAL_CALL\<close>, \<open>|amount|\<close> for
  \<^verbatim>\<open>DISTRIBUTION\<close> and \<^verbatim>\<open>PARTIAL_EXIT\<close>. The final flow is the investment's current
  value as it is, with no change of sign: it is positive exactly when the current value is.
  The IRR is the percentage of the rate that \<^verbatim>\<open>xirr\<close> finds for this series (0 when
  there is no activity, no rate, or an exception), so two databases whose activity rows
  differ only in the signs of amounts give the same IRR.
\<close>

theorem irr_sign_normalization:
  assumes "\<forall>a \<in> set (capital_activities d). is_money (amount a)"
  shows "build_cash_flows ops today iv (activities_by_date iv d) =
           (map ca_date (activities_by_date iv d) @ [today],
            map (float_lit ops)
              (map normalized_amount (activities_by_date iv d) @ [current_value iv]))
       \<and> set (activities_by_date iv d)
           = {a \<in> set (capital_activities d). ca_investment a = inv_id iv}
       \<and> length (activities_by_date iv d)
           = length (filter (\<lambda>a. ca_investment a = inv_id iv) (capital_activities d))
       \<and> sorted (map ca_date (activities_by_date iv d))
       \<and> (\<forall>a. ca_type a \<in> {INITIAL_INVESTMENT, CAPITAL_CALL} \<longrightarrow>
               normalized_amount a = - \<bar>amount a\<bar>)
       \<and> (\<forall>a. ca_type a \<in> {DISTRIBUTION, PARTIAL_EXIT} \<longrightarrow> normalized_amount a = \<bar>amount a\<bar>)
       \<and> (\<forall>a. normalized_amount (a\<lparr>amount := - amount a\<rparr>) = normalized_amount a)
       \<and> (0 < last (map normalized_amount (activities_by_date iv d) @ [current_value iv])
            \<longleftrightarrow> 0 < current_value iv)
       \<and> calculate_investment_irr ops today iv d =
           (if activities_by_date iv d = [] then 0
            else (case xirr_default ops (map ca_date (activities_by_date iv d) @ [today])
                         (map (float_lit ops)
                            (map normalized_amount (activities_by_date iv d)
                               @ [current_value iv])) of
                    Inl e \<Rightarrow> 0
                  | Inr None \<Rightarrow> 0
                  | Inr (Some irr) \<Rightarrow>
                      (case percent_decimal ops irr of Inl e \<Rightarrow> 0 | Inr p \<Rightarrow> p)))
       \<and> (map unsigned (capital_activities d) = map unsigned (capital_activities d2) \<longrightarrow>
            calculate_investment_irr ops today iv d = calculate_investment_irr ops today iv d2)"
proof -
  have m: "\<forall>a \<in> set (activities_by_date iv d). is_money (amount a)"
    using assms by (simp add: activities_by_date_set)
  note b = build_cash_flows_series[OF m, of ops today iv]
  have 1: "set (activities_by_date iv d)
           = {a \<in> set (capital_activities d). ca_investment a = inv_id iv}"
    by (rule activities_by_date_set)
  have 2: "length (activities_by_date iv d)
           = length (filter (\<lambda>a. ca_investment a = inv_id iv) (capital_activities d))"
    by (simp add: activities_by_date_def)
  have 3: "sorted (map ca_date (activities_by_date iv d))"
    by (simp add: activities_by_date_def)
  have 4: "\<forall>a. ca_type a \<in> {INITIAL_INVESTMENT, CAPITAL_CALL} \<longrightarrow>
               normalized_amount a = - \<bar>amount a\<bar>"
    by (simp add: normalized_amount_def)
  have 5: "\<forall>a. ca_type a \<in> {DISTRIBUTION, PARTIAL_EXIT} \<longrightarrow> normalized_amount a = \<bar>amount a\<bar>"
    by (auto simp: normalized_amount_def)
  have 6: "\<forall>a. normalized_amount (a\<lparr>amount := - amount a\<rparr>) = normalized_amount a"
    by (simp add: normalized_amount_def)
  have 7: "0 < last (map normalized_amount (activities_by_date iv d) @ [current_value iv])
            \<longleftrightarrow> 0 < current_value iv"
    by simp
  have 8: "calculate_investment_irr ops today iv d =
           (if activities_by_date iv d = [] then 0
            else (case xirr_default ops (map ca_date (activities_by_date iv d) @ [today])
                         (map (float_lit ops)
                            (map normalized_amount (activities_by_date iv d)
                               @ [current_value iv])) of
                    Inl e \<Rightarrow> 0
                  | Inr None \<Rightarrow> 0
                  | Inr (Some irr) \<Rightarrow>
                      (case percent_decimal ops irr of Inl e \<Rightarrow> 0 | Inr p \<Rightarrow> p)))"
    unfolding calculate_investment_irr_def Let_def b by simp
  have 9: "map unsigned (capital_activities d) = map unsigned (capital_activities d2) \<longrightarrow>
            calculate_investment_irr ops today iv d = calculate_investment_irr ops today iv d2"
  proof
    assume "map unsigned (capital_activities d) = map unsigned (capital_activities d2)"
    then have "map unsigned (activities_by_date iv d) = map unsigned (activities_by_date iv d2)"
      by (simp add: activities_unsigned)
    then show "calculate_investment_irr ops today iv d = calculate_investment_irr ops today iv d2"
      by (rule irr_unsigned)
  qed
  from b 1 2 3 4 5 6 7 8 9 show ?thesis by (intro conjI)
qed

lemma arith_flows:
  "is_money (- 10000)"
  "quantize2 (390000 / 11 * 100) = 70909091 / 20"
  "quantize2 (39000000 / 11) = 70909091 / 20"
  by code_simp+

lemma eval_npv:
  "xirr_default probe_ops [0, 10] [- 10000, 50000] = Inr (Some (390000 / 11))"
  by (simp add: xirr_default_def xirr_def py_min_def xnpv_def bind_result_def probe_ops_def
        rat_ops_def)

theorem irr_sign_normalization_witness:
  "capital_activities
      ((ledger [fund 1 1 ACTIVE 50000 50000] (transfer_of PARTIAL 10000 DRAFT))
         \<lparr>capital_activities := [activity INITIAL_INVESTMENT (- 10000)]\<rparr>)
     = [activity INITIAL_INVESTMENT (- 10000)]
   \<and> is_money (amount (activity INITIAL_INVESTMENT (- 10000)))
   \<and> build_cash_flows probe_ops 10 (fund 1 1 ACTIVE 50000 50000)
        (activities_by_date (fund 1 1 ACTIVE 50000 50000)
           ((ledger [fund 1 1 ACTIVE 50000 50000] (transfer_of PARTIAL 10000 DRAFT))
              \<lparr>capital_activities := [activity INITIAL_INVESTMENT (- 10000)]\<rparr>))
       = ([0, 10], [- 10000, 50000])
   \<and> calculate_investment_irr probe_ops 10 (fund 1 1 ACTIVE 50000 50000)
        ((ledger [fund 1 1 ACTIVE 50000 50000] (transfer_of PARTIAL 10000 DRAFT))
            \<lparr>capital_activities := [activity INITIAL_INVESTMENT (- 10000)]\<rparr>)
       = 70909091 / 20
   \<and> map unsigned (capital_activities
         ((ledger [fund 1 1 ACTIVE 50000 50000] (transfer_of PARTIAL 10000 DRAFT))
            \<lparr>capital_activities := [activity INITIAL_INVESTMENT (- 10000)]\<rparr>))
       = map unsigned (capital_activities
         ((ledger [fund 1 1 ACTIVE 50000 50000] (transfer_of PARTIAL 10000 DRAFT))
            \<lparr>capital_activities := [activity INITIAL_INVESTMENT 10000]\<rparr>))
   \<and> calculate_investment_irr probe_ops 10 (fund 1 1 ACTIVE 50000 50000)
        ((ledger [fund 1 1 ACTIVE 50000 50000] (transfer_of PARTIAL 10000 DRAFT))
            \<lparr>capital_activities := [activity INITIAL_INVESTMENT 10000]\<rparr>)
       = 70909091 / 20"
proof -
  let ?F = "fund 1 1 ACTIVE 50000 50000"
  let ?L = "ledger [?F] (transfer_of PARTIAL 10000 DRAFT)"
  let ?D1 = "?L\<lparr>capital_activities := [activity INITIAL_INVESTMENT (- 10000)]\<rparr>"
  let ?D2 = "?L\<lparr>capital_activities := [activity INITIAL_INVESTMENT 10000]\<rparr>"
  have c: "capital_activities ?D1 = [activity INITIAL_INVESTMENT (- 10000)]" by simp
  have m: "is_money (amount (activity INITIAL_INVESTMENT (- 10000)))"
    by (simp add: activity_def arith_flows)
  have h: "\<forall>a \<in> set (capital_activities ?D1). is_money (amount a)"
    using m by simp
  have u: "map unsigned (capital_activities ?D1) = map unsigned (capital_activities ?D2)"
    by (simp add: unsigned_def activity_def)
  have a: "activities_by_date ?F ?D1 = [activity INITIAL_INVESTMENT (- 10000)]"
    by (simp add: activities_by_date_def activity_def fund_def)
  have n: "normalized_amount (activity INITIAL_INVESTMENT (- 10000)) = - 10000"
    "ca_date (activity INITIAL_INVESTMENT (- 10000)) = 0" "current_value ?F = 50000"
    by (simp_all add: normalized_amount_def activity_def fund_def)
  have fl: "float_lit probe_ops = (\<lambda>x. x)" "percent_decimal probe_ops = (\<lambda>x. Inr (quantize2 (x * 100)))"
    by (simp_all add: probe_ops_def rat_ops_def)
  note t = irr_sign_normalization[OF h, of probe_ops 10 ?F ?D2]
  note series = t[THEN conjunct1]
  note irr = t[THEN conjunct2, THEN conjunct2, THEN conjunct2, THEN conjunct2, THEN conjunct2,
               THEN conjunct2, THEN conjunct2, THEN conjunct2, THEN conjunct1]
  note same = t[THEN conjunct2, THEN conjunct2, THEN conjunct2, THEN conjunct2, THEN conjunct2,
                THEN conjunct2, THEN conjunct2, THEN conjunct2, THEN conjunct2]
  have 1: "build_cash_flows probe_ops 10 ?F (activities_by_date ?F ?D1)
       = ([0, 10], [- 10000, 50000])"
    unfolding series unfolding a by (simp add: n fl fund_def)
  have 2: "calculate_investment_irr probe_ops 10 ?F ?D1 = 70909091 / 20"
    unfolding irr unfolding a by (simp add: n fl fund_def eval_npv arith_flows)
  from same u have "calculate_investment_irr probe_ops 10 ?F ?D1
                   = calculate_investment_irr probe_ops 10 ?F ?D2"
    by (rule mp)
  with 2 have 3: "calculate_investment_irr probe_ops 10 ?F ?D2 = 70909091 / 20" by simp
  from c m 1 2 u 3 show ?thesis by (intro conjI)
qed

text \<open>
  The claim as stated fails for an investment whose current value is 0, the state a full
  exit leaves: the final flow of its series is 0, which is not positive. The current value
  goes into the series as it is stored: a row with a current value below 0, which the
  column accepts (the validator of the field runs in forms only), ends its series with a
  negative flow.
\<close>

theorem irr_sign_normalization_counterexample:
  "current_value (fund 1 1 EXITED 0 0) = 0
   \<and> build_cash_flows rat_ops 10 (fund 1 1 EXITED 0 0)
        (activities_by_date (fund 1 1 EXITED 0 0)
           ((ledger [fund 1 1 EXITED 0 0] (transfer_of PARTIAL 10000 DRAFT))
              \<lparr>capital_activities := [activity INITIAL_INVESTMENT 10000]\<rparr>))
       = ([0, 10], [- 10000, 0])
   \<and> \<not> 0 < last (snd (build_cash_flows rat_ops 10 (fund 1 1 EXITED 0 0)
        (activities_by_date (fund 1 1 EXITED 0 0)
           ((ledger [fund 1 1 EXITED 0 0] (transfer_of PARTIAL 10000 DRAFT))
              \<lparr>capital_activities := [activity INITIAL_INVESTMENT 10000]\<rparr>))))
   \<and> build_cash_flows rat_ops 10 (fund 1 1 ACTIVE 50000 (- 100))
        (activities_by_date (fund 1 1 ACTIVE 50000 (- 100))
           ((ledger [fund 1 1 ACTIVE 50000 (- 100)] (transfer_of PARTIAL 10000 DRAFT))
              \<lparr>capital_activities := [activity INITIAL_INVESTMENT 10000]\<rparr>))
       = ([0, 10], [- 10000, - 100])
   \<and> last (snd (build_cash_flows rat_ops 10 (fund 1 1 ACTIVE 50000 (- 100))
        (activities_by_date (fund 1 1 ACTIVE 50000 (- 100))
           ((ledger [fund 1 1 ACTIVE 50000 (- 100)] (transfer_of PARTIAL 10000 DRAFT))
              \<lparr>capital_activities := [activity INITIAL_INVESTMENT 10000]\<rparr>)))) < 0"
proof -
  have "cash_flow_of rat_ops (activity INITIAL_INVESTMENT 10000) = - 10000"
    using cash_flow_of_money[of "activity INITIAL_INVESTMENT 10000" rat_ops]
    by (simp add: activity_def normalized_amount_def rat_ops_def arith_examples)
  then show ?thesis
    by (simp add: build_cash_flows_def activities_by_date_def activity_def fund_def rat_ops_def)
qed

end
